theory Spec2Isabelle
  imports Complex_Main "HOL-Library.Multiset" "HOL-Library.Char_ord"
    "HOL-Library.List_Lexorder" "HOL-Library.Product_Lexorder"
begin

section \<open>Python strings\<close>

text \<open>
  A Python \<open>str\<close> is modelled as a \<open>string\<close>; a \<open>char\<close> stands for the code point
  of the same number (0 to 255). The operations below are the \<open>str\<close> methods that
  \<open>automation.py\<close> calls.
\<close>

definition nl :: string where
  "nl = [CHR 0x0A]"

definition startswith :: "string \<Rightarrow> string \<Rightarrow> bool" where
  "startswith s p = (take (length p) s = p)"

definition endswith :: "string \<Rightarrow> string \<Rightarrow> bool" where
  "endswith s p = (length p \<le> length s \<and> drop (length s - length p) s = p)"

text \<open>\<open>str.isspace\<close> on one character: the code points 9 to 13, 28 to 32, 133 and 160.\<close>

definition isspace :: "char \<Rightarrow> bool" where
  "isspace c = (let n = (of_char c :: nat)
     in (9 \<le> n \<and> n \<le> 13) \<or> (28 \<le> n \<and> n \<le> 32) \<or> n = 133 \<or> n = 160)"

definition strip :: "string \<Rightarrow> string" where
  "strip s = rev (dropWhile isspace (rev (dropWhile isspace s)))"

fun str_join :: "string \<Rightarrow> string list \<Rightarrow> string" where
  "str_join sep [] = []"
| "str_join sep [x] = x"
| "str_join sep (x # y # ys) = x @ sep @ str_join sep (y # ys)"

definition digit_char :: "nat \<Rightarrow> char" where
  "digit_char d = char_of (48 + d)"

fun str_nat :: "nat \<Rightarrow> string" where
  "str_nat n = (if n < 10 then [digit_char n] else str_nat (n div 10) @ [digit_char (n mod 10)])"

declare str_nat.simps [simp del]

text \<open>\<open>str(i)\<close> for a Python \<open>int\<close>.\<close>

definition str_int :: "int \<Rightarrow> string" where
  "str_int i = (if i < 0 then CHR ''-'' # str_nat (nat (- i)) else str_nat (nat i))"

text \<open>Reading a decimal numeral back, to state that \<open>str_nat\<close> writes the number it is given.\<close>

definition digit_val :: "char \<Rightarrow> nat" where
  "digit_val c = of_char c - 48"

definition read_nat :: "string \<Rightarrow> nat" where
  "read_nat s = foldl (\<lambda>acc c. 10 * acc + digit_val c) 0 s"

definition isdigit :: "char \<Rightarrow> bool" where
  "isdigit c = (48 \<le> (of_char c :: nat) \<and> (of_char c :: nat) \<le> 57)"

text \<open>
  Text files are opened with the default \<open>newline=None\<close>: on reading, \<open>\r\n\<close> and a lone
  \<open>\r\<close> arrive as \<open>\n\<close>.
\<close>

fun universal_newlines :: "string \<Rightarrow> string" where
  "universal_newlines [] = []"
| "universal_newlines [c] = (if c = CHR 0x0D then [CHR 0x0A] else [c])"
| "universal_newlines (c # d # cs) =
     (if c = CHR 0x0D \<and> d = CHR 0x0A then CHR 0x0A # universal_newlines cs
      else if c = CHR 0x0D then CHR 0x0A # universal_newlines (d # cs)
      else c # universal_newlines (d # cs))"

text \<open>\<open>f.readlines()\<close> and \<open>for line in f\<close>: the lines of the text, each with its \<open>\n\<close>.\<close>

fun readlines :: "string \<Rightarrow> string list" where
  "readlines [] = []"
| "readlines (c # cs) =
     (if c = CHR 0x0A then [c] # readlines cs
      else (case readlines cs of [] \<Rightarrow> [[c]] | l # ls \<Rightarrow> (c # l) # ls))"

text \<open>\<open>f.readline()\<close> on a freshly opened file: the first line, or the empty string.\<close>

definition readline :: "string \<Rightarrow> string" where
  "readline text = (case readlines text of [] \<Rightarrow> [] | l # _ \<Rightarrow> l)"

section \<open>Exceptions and responses\<close>

text \<open>Each exception carries the text of \<open>str(e)\<close>.\<close>

datatype exn =
    PermissionError string
  | FileNotFoundError string
  | IsADirectoryError string
  | NotADirectoryError string
  | OSError string
  | KeyError string
  | TypeError string
  | NameError string
  | ValueError string
  | IndexError string
  | LibraryError string

fun str_exn :: "exn \<Rightarrow> string" where
  "str_exn (PermissionError m) = m"
| "str_exn (FileNotFoundError m) = m"
| "str_exn (IsADirectoryError m) = m"
| "str_exn (NotADirectoryError m) = m"
| "str_exn (OSError m) = m"
| "str_exn (KeyError m) = m"
| "str_exn (TypeError m) = m"
| "str_exn (NameError m) = m"
| "str_exn (ValueError m) = m"
| "str_exn (IndexError m) = m"
| "str_exn (LibraryError m) = m"

datatype http_exception = HTTPException (status_code: nat) (detail: string)

text \<open>The two JSON bodies: \<open>{"status": s}\<close> and \<open>{"output": s}\<close>.\<close>

datatype response = Status string | Output string

section \<open>The file system and the trace of accesses\<close>

text \<open>
  A path names a regular file (its characters and modification time) or a directory (the
  entry names \<open>os.listdir\<close> reports, in the order it reports them, and its modification
  time). \<open>rdeny\<close> and \<open>wdeny\<close> give the exception the operating system raises when a path
  cannot be read or cannot be opened for writing. \<open>trace\<close> records, newest first, every
  call of the guard and every access, so that their order can be stated.
\<close>

datatype node = RegFile string rat | Dir "string list" rat

fun mtime :: "node \<Rightarrow> rat" where
  "mtime (RegFile c t) = t"
| "mtime (Dir es t) = t"

datatype event =
    Guard string
  | Exists string
  | Listdir string
  | Getmtime string
  | OpenR string
  | OpenW string
  | Connect string

record world =
  nodes :: "string \<rightharpoonup> node"
  rdeny :: "string \<rightharpoonup> exn"
  wdeny :: "string \<rightharpoonup> exn"
  clock :: rat
  trace :: "event list"

type_synonym 'a prog = "world \<Rightarrow> (exn + 'a) \<times> world"

definition ret :: "'a \<Rightarrow> 'a prog" where
  "ret x = (\<lambda>w. (Inr x, w))"

definition raise :: "exn \<Rightarrow> 'a prog" where
  "raise e = (\<lambda>w. (Inl e, w))"

definition bind :: "'a prog \<Rightarrow> ('a \<Rightarrow> 'b prog) \<Rightarrow> 'b prog" where
  "bind m f = (\<lambda>w. case m w of (Inl e, w') \<Rightarrow> (Inl e, w') | (Inr x, w') \<Rightarrow> f x w')"

definition emit :: "event \<Rightarrow> unit prog" where
  "emit ev = (\<lambda>w. (Inr (), w\<lparr>trace := ev # trace w\<rparr>))"

definition quote :: "string \<Rightarrow> string" where
  "quote s = [CHR 0x27] @ s @ [CHR 0x27]"

definition no_such_file :: "string \<Rightarrow> string" where
  "no_such_file p = ''[Errno 2] No such file or directory: '' @ quote p"

definition is_a_directory :: "string \<Rightarrow> string" where
  "is_a_directory p = ''[Errno 21] Is a directory: '' @ quote p"

definition not_a_directory :: "string \<Rightarrow> string" where
  "not_a_directory p = ''[Errno 20] Not a directory: '' @ quote p"

definition os_path_exists :: "string \<Rightarrow> bool prog" where
  "os_path_exists p = bind (emit (Exists p)) (\<lambda>_ w. (Inr (nodes w p \<noteq> None), w))"

text \<open>\<open>open(p, "rb")\<close> and reading all of it.\<close>

definition read_bytes :: "string \<Rightarrow> string prog" where
  "read_bytes p = bind (emit (OpenR p)) (\<lambda>_ w.
     case rdeny w p of
       Some e \<Rightarrow> (Inl e, w)
     | None \<Rightarrow>
        (case nodes w p of
           None \<Rightarrow> (Inl (FileNotFoundError (no_such_file p)), w)
         | Some (Dir es t) \<Rightarrow> (Inl (IsADirectoryError (is_a_directory p)), w)
         | Some (RegFile c t) \<Rightarrow> (Inr c, w)))"

text \<open>\<open>open(p, "r", encoding="utf-8")\<close> and the text that reading it gives.\<close>

definition open_read :: "string \<Rightarrow> string prog" where
  "open_read p = bind (read_bytes p) (\<lambda>c. ret (universal_newlines c))"

text \<open>\<open>open(p, "w", encoding="utf-8")\<close>, one \<open>write\<close> and the close.\<close>

definition open_write :: "string \<Rightarrow> string \<Rightarrow> unit prog" where
  "open_write p text = bind (emit (OpenW p)) (\<lambda>_ w.
     case wdeny w p of
       Some e \<Rightarrow> (Inl e, w)
     | None \<Rightarrow>
        (case nodes w p of
           Some (Dir es t) \<Rightarrow> (Inl (IsADirectoryError (is_a_directory p)), w)
         | _ \<Rightarrow> (Inr (), w\<lparr>nodes := (nodes w)(p \<mapsto> RegFile text (clock w))\<rparr>)))"

definition os_listdir :: "string \<Rightarrow> string list prog" where
  "os_listdir p = bind (emit (Listdir p)) (\<lambda>_ w.
     case rdeny w p of
       Some e \<Rightarrow> (Inl e, w)
     | None \<Rightarrow>
        (case nodes w p of
           None \<Rightarrow> (Inl (FileNotFoundError (no_such_file p)), w)
         | Some (RegFile c t) \<Rightarrow> (Inl (NotADirectoryError (not_a_directory p)), w)
         | Some (Dir es t) \<Rightarrow> (Inr es, w)))"

definition os_path_getmtime :: "string \<Rightarrow> rat prog" where
  "os_path_getmtime p = bind (emit (Getmtime p)) (\<lambda>_ w.
     case nodes w p of
       None \<Rightarrow> (Inl (FileNotFoundError (no_such_file p)), w)
     | Some n \<Rightarrow> (Inr (mtime n), w))"

definition file_content :: "world \<Rightarrow> string \<Rightarrow> string option" where
  "file_content w p = (case nodes w p of Some (RegFile c t) \<Rightarrow> Some c | _ \<Rightarrow> None)"

text \<open>\<open>posixpath.join\<close> of two components.\<close>

definition os_path_join :: "string \<Rightarrow> string \<Rightarrow> string" where
  "os_path_join a b =
     (if startswith b ''/'' then b
      else if a = [] \<or> endswith a ''/'' then a @ b
      else a @ ''/'' @ b)"

section \<open>The path guard\<close>

definition DATA_DIR :: string where
  "DATA_DIR = ''data/''"

definition access_denied :: "string \<Rightarrow> string" where
  "access_denied file_path = ''Access denied: '' @ file_path @ '' is outside '' @ DATA_DIR"

definition enforce_security :: "string \<Rightarrow> unit prog" where
  "enforce_security file_path = bind (emit (Guard file_path)) (\<lambda>_.
     if \<not> startswith file_path DATA_DIR
     then raise (PermissionError (access_denied file_path))
     else ret ())"

section \<open>The date parser\<close>

text \<open>
  \<open>datetime.strptime\<close> is the standard library's: it is a parameter, \<open>None\<close> standing for
  its \<open>ValueError\<close>. A \<open>datetime\<close> is the calendar date and time it returns;
  \<open>weekday\<close> is computed as the standard library does, from the proleptic Gregorian ordinal.
\<close>

record datetime =
  year :: int
  month :: int
  day :: int
  hour :: int
  minute :: int
  second :: int

definition is_leap :: "int \<Rightarrow> bool" where
  "is_leap y = (y mod 4 = 0 \<and> (y mod 100 \<noteq> 0 \<or> y mod 400 = 0))"

definition days_before_year :: "int \<Rightarrow> int" where
  "days_before_year y = (y - 1) * 365 + (y - 1) div 4 - (y - 1) div 100 + (y - 1) div 400"

definition DAYS_BEFORE_MONTH :: "int list" where
  "DAYS_BEFORE_MONTH = [-1, 0, 31, 59, 90, 120, 151, 181, 212, 243, 273, 304, 334]"

text \<open>A \<open>datetime\<close> always has a month from 1 to 12, so the table is read in range.\<close>

definition days_before_month :: "int \<Rightarrow> int \<Rightarrow> int" where
  "days_before_month y m = DAYS_BEFORE_MONTH ! nat m + (if m > 2 \<and> is_leap y then 1 else 0)"

definition toordinal :: "datetime \<Rightarrow> int" where
  "toordinal d = days_before_year (year d) + days_before_month (year d) (month d) + day d"

definition weekday :: "datetime \<Rightarrow> int" where
  "weekday d = (toordinal d + 6) mod 7"

definition date_formats :: "string list" where
  "date_formats =
     [''%Y-%m-%d'', ''%d/%m/%Y'', ''%m-%d-%Y'', ''%Y/%m/%d'',
      ''%d %b %Y'', ''%d %B %Y'', ''%b %d, %Y'', ''%B %d, %Y'',
      ''%Y-%m-%d %H:%M:%S'', ''%d/%m/%Y %H:%M'', ''%m-%d-%Y %I:%M %p'']"

type_synonym strptime_fn = "string \<Rightarrow> string \<Rightarrow> datetime option"

fun try_formats :: "strptime_fn \<Rightarrow> string \<Rightarrow> string list \<Rightarrow> datetime option" where
  "try_formats sp s [] = None"
| "try_formats sp s (fmt # fmts) =
     (case sp s fmt of Some d \<Rightarrow> Some d | None \<Rightarrow> try_formats sp s fmts)"

definition parse_date :: "strptime_fn \<Rightarrow> string \<Rightarrow> datetime option" where
  "parse_date sp date_str = try_formats sp (strip date_str) date_formats"

section \<open>count_wednesdays\<close>

definition is_wednesday :: "strptime_fn \<Rightarrow> string \<Rightarrow> bool" where
  "is_wednesday sp date =
     (case parse_date sp date of None \<Rightarrow> False | Some parsed_date \<Rightarrow> weekday parsed_date = 2)"

definition count_wednesdays :: "strptime_fn \<Rightarrow> unit prog" where
  "count_wednesdays sp =
     (let input_file = os_path_join DATA_DIR ''dates.txt'';
          output_file = os_path_join DATA_DIR ''dates-wednesdays.txt''
      in bind (enforce_security input_file) (\<lambda>_.
         bind (enforce_security output_file) (\<lambda>_.
         bind (os_path_exists input_file) (\<lambda>ex.
         if \<not> ex then open_write output_file (''0'' @ nl)
         else
           bind (open_read input_file) (\<lambda>text.
           let dates = readlines text;
               wednesday_count = length (filter (is_wednesday sp) dates)
           in open_write output_file (str_nat wednesday_count @ nl))))))"

section \<open>Python values, comparison and \<open>sorted\<close>\<close>

text \<open>
  What \<open>json.load\<close> returns: \<open>None\<close>, \<open>bool\<close>, numbers (the rational a finite number
  denotes), \<open>str\<close>, \<open>list\<close> and \<open>dict\<close> (keys in insertion order, each once).
\<close>

datatype json =
    JNull
  | JBool bool
  | JNum rat
  | JStr string
  | JArr "json list"
  | JObj "(string \<times> json) list"

text \<open>
  The interpreter's built-in behaviour on values that are not strings is a parameter:
  \<open>lt_other\<close> and \<open>eq_other\<close> are \<open><\<close> and \<open>==\<close> on two values that are not both
  strings, \<open>getitem_error\<close> is the exception of \<open>x[k]\<close> on a value that is not a
  \<open>dict\<close>, \<open>iter_error\<close> the exception of iterating a value that cannot be iterated.
\<close>

record builtins =
  lt_other :: "json \<Rightarrow> json \<Rightarrow> exn + bool"
  eq_other :: "json \<Rightarrow> json \<Rightarrow> bool"
  getitem_error :: "json \<Rightarrow> string \<Rightarrow> exn"
  iter_error :: "json \<Rightarrow> exn"

text \<open>\<open>a < b\<close> on two \<open>str\<close>: lexicographic on code points.\<close>

fun str_lt :: "string \<Rightarrow> string \<Rightarrow> bool" where
  "str_lt [] [] = False"
| "str_lt [] (y # ys) = True"
| "str_lt (x # xs) [] = False"
| "str_lt (x # xs) (y # ys) =
     (if (of_char x :: nat) < of_char y then True
      else if (of_char y :: nat) < of_char x then False
      else str_lt xs ys)"

definition py_lt :: "builtins \<Rightarrow> json \<Rightarrow> json \<Rightarrow> exn + bool" where
  "py_lt bi a b = (case (a, b) of (JStr x, JStr y) \<Rightarrow> Inr (str_lt x y) | _ \<Rightarrow> lt_other bi a b)"

definition py_eq :: "builtins \<Rightarrow> json \<Rightarrow> json \<Rightarrow> bool" where
  "py_eq bi a b = (case (a, b) of (JStr x, JStr y) \<Rightarrow> x = y | _ \<Rightarrow> eq_other bi a b)"

text \<open>
  \<open><\<close> on two 2-tuples: the first position where the tuples differ (by \<open>==\<close>) decides,
  by \<open><\<close> on its items; equal tuples are not less.
\<close>

definition tuple_lt :: "builtins \<Rightarrow> json \<times> json \<Rightarrow> json \<times> json \<Rightarrow> exn + bool" where
  "tuple_lt bi a b =
     (if \<not> py_eq bi (fst a) (fst b) then py_lt bi (fst a) (fst b)
      else if \<not> py_eq bi (snd a) (snd b) then py_lt bi (snd a) (snd b)
      else Inr False)"

text \<open>\<open>x[k]\<close>.\<close>

definition getitem :: "builtins \<Rightarrow> json \<Rightarrow> string \<Rightarrow> exn + json" where
  "getitem bi x k =
     (case x of
        JObj kvs \<Rightarrow> (case map_of kvs k of None \<Rightarrow> Inl (KeyError (quote k)) | Some v \<Rightarrow> Inr v)
      | _ \<Rightarrow> Inl (getitem_error bi x k))"

text \<open>The items that iterating a value gives: a list's items, a dict's keys, a string's characters.\<close>

definition py_iter :: "builtins \<Rightarrow> json \<Rightarrow> exn + json list" where
  "py_iter bi x =
     (case x of
        JArr xs \<Rightarrow> Inr xs
      | JObj kvs \<Rightarrow> Inr (map (\<lambda>kv. JStr (fst kv)) kvs)
      | JStr s \<Rightarrow> Inr (map (\<lambda>c. JStr [c]) s)
      | _ \<Rightarrow> Inl (iter_error bi x))"

text \<open>
  \<open>sorted(xs, key=f, reverse=r)\<close> computes every key first, in order, then sorts with
  \<open><\<close> alone, stably; with \<open>reverse\<close> it reverses the list, sorts it and reverses the result.
  For keys that \<open><\<close> orders totally the result of a stable sort does not depend on the
  algorithm; the model inserts from the right. The list arrives with its keys.
\<close>

fun insort_lt :: "('k \<Rightarrow> 'k \<Rightarrow> exn + bool) \<Rightarrow> 'k \<times> 'a \<Rightarrow> ('k \<times> 'a) list \<Rightarrow> exn + ('k \<times> 'a) list" where
  "insort_lt lt x [] = Inr [x]"
| "insort_lt lt x (y # ys) =
     (case lt (fst y) (fst x) of
        Inl e \<Rightarrow> Inl e
      | Inr True \<Rightarrow> (case insort_lt lt x ys of Inl e \<Rightarrow> Inl e | Inr zs \<Rightarrow> Inr (y # zs))
      | Inr False \<Rightarrow> Inr (x # y # ys))"

fun sort_stable :: "('k \<Rightarrow> 'k \<Rightarrow> exn + bool) \<Rightarrow> ('k \<times> 'a) list \<Rightarrow> exn + ('k \<times> 'a) list" where
  "sort_stable lt [] = Inr []"
| "sort_stable lt (x # xs) =
     (case sort_stable lt xs of Inl e \<Rightarrow> Inl e | Inr ys \<Rightarrow> insort_lt lt x ys)"

definition py_sorted :: "('k \<Rightarrow> 'k \<Rightarrow> exn + bool) \<Rightarrow> bool \<Rightarrow> ('k \<times> 'a) list \<Rightarrow> exn + 'a list" where
  "py_sorted lt reverse kxs =
     (if reverse
      then (case sort_stable lt (rev kxs) of Inl e \<Rightarrow> Inl e | Inr ys \<Rightarrow> Inr (map snd (rev ys)))
      else (case sort_stable lt kxs of Inl e \<Rightarrow> Inl e | Inr ys \<Rightarrow> Inr (map snd ys)))"

text \<open>A computation without effects, run inside a task.\<close>

definition lift :: "exn + 'a \<Rightarrow> 'a prog" where
  "lift r = (\<lambda>w. (r, w))"

section \<open>sort_contacts\<close>

text \<open>\<open>json.load\<close> and \<open>json.dump(_, f, indent=4)\<close> are the standard library's.\<close>

record json_lib =
  json_load :: "string \<Rightarrow> exn + json"
  json_dump :: "json \<Rightarrow> string"

text \<open>The key \<open>(x["last_name"], x["first_name"])\<close>, the last name looked up first.\<close>

definition contact_key :: "builtins \<Rightarrow> json \<Rightarrow> exn + json \<times> json" where
  "contact_key bi x =
     (case getitem bi x ''last_name'' of
        Inl e \<Rightarrow> Inl e
      | Inr l \<Rightarrow> (case getitem bi x ''first_name'' of Inl e \<Rightarrow> Inl e | Inr f \<Rightarrow> Inr (l, f)))"

fun with_keys :: "('a \<Rightarrow> exn + 'k) \<Rightarrow> 'a list \<Rightarrow> exn + ('k \<times> 'a) list" where
  "with_keys f [] = Inr []"
| "with_keys f (x # xs) =
     (case f x of
        Inl e \<Rightarrow> Inl e
      | Inr k \<Rightarrow> (case with_keys f xs of Inl e \<Rightarrow> Inl e | Inr kxs \<Rightarrow> Inr ((k, x) # kxs)))"

definition sorted_contacts :: "builtins \<Rightarrow> json \<Rightarrow> exn + json list" where
  "sorted_contacts bi contacts =
     (case py_iter bi contacts of
        Inl e \<Rightarrow> Inl e
      | Inr xs \<Rightarrow>
         (case with_keys (contact_key bi) xs of
            Inl e \<Rightarrow> Inl e
          | Inr kxs \<Rightarrow> py_sorted (tuple_lt bi) False kxs))"

definition sort_contacts :: "builtins \<Rightarrow> json_lib \<Rightarrow> unit prog" where
  "sort_contacts bi js =
     (let input_file = os_path_join DATA_DIR ''contacts.json'';
          output_file = os_path_join DATA_DIR ''contacts-sorted.json''
      in bind (enforce_security input_file) (\<lambda>_.
         bind (enforce_security output_file) (\<lambda>_.
         bind (open_read input_file) (\<lambda>text.
         bind (lift (json_load js text)) (\<lambda>contacts.
         bind (lift (sorted_contacts bi contacts)) (\<lambda>sorted_contacts.
         open_write output_file (json_dump js (JArr sorted_contacts))))))))"

section \<open>recent_logs\<close>

text \<open>The keys \<open>os.path.getmtime\<close> gives, looked up in the order of the list.\<close>

fun getmtimes :: "string list \<Rightarrow> (rat \<times> string) list prog" where
  "getmtimes [] = ret []"
| "getmtimes (p # ps) =
     bind (os_path_getmtime p) (\<lambda>t.
     bind (getmtimes ps) (\<lambda>kps. ret ((t, p) # kps)))"

definition rat_lt :: "rat \<Rightarrow> rat \<Rightarrow> exn + bool" where
  "rat_lt a b = Inr (a < b)"

fun read_first_lines :: "string list \<Rightarrow> string list prog" where
  "read_first_lines [] = ret []"
| "read_first_lines (log_file # log_files) =
     bind (enforce_security log_file) (\<lambda>_.
     bind (open_read log_file) (\<lambda>text.
     bind (read_first_lines log_files) (\<lambda>first_lines. ret (strip (readline text) # first_lines))))"

definition recent_logs :: "unit prog" where
  "recent_logs =
     (let logs_dir = os_path_join DATA_DIR ''logs'';
          output_file = os_path_join DATA_DIR ''logs-recent.txt''
      in bind (enforce_security output_file) (\<lambda>_.
         bind (os_listdir logs_dir) (\<lambda>names.
         bind (getmtimes (map (os_path_join logs_dir) (filter (\<lambda>f. endswith f ''.log'') names))) (\<lambda>keyed.
         bind (lift (py_sorted rat_lt True keyed)) (\<lambda>sorted_files.
         let log_files = take 10 sorted_files
         in bind (read_first_lines log_files) (\<lambda>first_lines.
            open_write output_file (str_join nl first_lines @ nl)))))))"

section \<open>index_markdown\<close>

text \<open>The title of the first line that starts with \<open># \<close>, if there is one.\<close>

fun first_title :: "string list \<Rightarrow> string option" where
  "first_title [] = None"
| "first_title (line # lines) =
     (if startswith line ''# '' then Some (strip (drop 2 line)) else first_title lines)"

text \<open>\<open>index[k] = v\<close> on a dict in insertion order.\<close>

definition dict_set :: "(string \<times> json) list \<Rightarrow> string \<Rightarrow> json \<Rightarrow> (string \<times> json) list" where
  "dict_set kvs k v =
     (if k \<in> fst ` set kvs then map (\<lambda>kv. if fst kv = k then (k, v) else kv) kvs
      else kvs @ [(k, v)])"

fun index_files :: "string \<Rightarrow> string list \<Rightarrow> (string \<times> json) list \<Rightarrow> (string \<times> json) list prog" where
  "index_files docs_dir [] index = ret index"
| "index_files docs_dir (file # files) index =
     (if endswith file ''.md''
      then
        (let file_path = os_path_join docs_dir file
         in bind (enforce_security file_path) (\<lambda>_.
            bind (open_read file_path) (\<lambda>text.
            index_files docs_dir files
              (case first_title (readlines text) of
                 None \<Rightarrow> index
               | Some title \<Rightarrow> dict_set index file (JStr title)))))
      else index_files docs_dir files index)"

definition index_markdown :: "json_lib \<Rightarrow> unit prog" where
  "index_markdown js =
     (let docs_dir = os_path_join DATA_DIR ''docs'';
          output_file = os_path_join DATA_DIR ''docs/index.json''
      in bind (enforce_security output_file) (\<lambda>_.
         bind (os_listdir docs_dir) (\<lambda>names.
         bind (index_files docs_dir names []) (\<lambda>index.
         open_write output_file (json_dump js (JObj index))))))"

section \<open>email_sender and extract_credit_card\<close>

text \<open>
  \<open>re.search(pattern, text)\<close> is the standard library's: \<open>None\<close>, or the groups of the
  leftmost match, group 0 first. \<open>Image.open\<close> with \<open>pytesseract.image_to_string\<close> is
  a function of the bytes of the image file.
\<close>

type_synonym re_search_fn = "string \<Rightarrow> string \<Rightarrow> string list option"

definition group :: "string list \<Rightarrow> nat \<Rightarrow> exn + string" where
  "group m i = (if i < length m then Inr (m ! i) else Inl (IndexError ''no such group''))"

definition email_pattern :: string where
  "email_pattern = ''From:.*?<(.*?)>''"

definition email_sender :: "re_search_fn \<Rightarrow> unit prog" where
  "email_sender re_search =
     (let input_file = os_path_join DATA_DIR ''email.txt'';
          output_file = os_path_join DATA_DIR ''email-sender.txt''
      in bind (enforce_security input_file) (\<lambda>_.
         bind (enforce_security output_file) (\<lambda>_.
         bind (os_path_exists input_file) (\<lambda>ex.
         bind (if ex
               then bind (open_read input_file) (\<lambda>text.
                    case re_search email_pattern (strip text) of
                      None \<Rightarrow> ret []
                    | Some m \<Rightarrow> lift (group m 1))
               else ret []) (\<lambda>extracted_email.
         open_write output_file (extracted_email @ nl))))))"

definition card_pattern :: string where
  "card_pattern = [CHR 0x5C] @ ''b(?:'' @ [CHR 0x5C] @ ''d[ -]*?){13,16}'' @ [CHR 0x5C] @ ''b''"

definition extract_credit_card :: "re_search_fn \<Rightarrow> (string \<Rightarrow> exn + string) \<Rightarrow> unit prog" where
  "extract_credit_card re_search image_to_string =
     (let input_image = os_path_join DATA_DIR ''credit-card.png'';
          output_file = os_path_join DATA_DIR ''credit-card.txt''
      in bind (enforce_security input_image) (\<lambda>_.
         bind (enforce_security output_file) (\<lambda>_.
         bind (read_bytes input_image) (\<lambda>image.
         bind (lift (image_to_string image)) (\<lambda>text.
         bind (case re_search card_pattern text of
                 None \<Rightarrow> ret []
               | Some m \<Rightarrow> bind (lift (group m 0)) (\<lambda>g. ret (filter isdigit g))) (\<lambda>extracted_card_number.
         open_write output_file (extracted_card_number @ nl)))))))"

section \<open>similar_comments\<close>

text \<open>
  Loading the sentence model, encoding the comments, the cosine similarities with the
  diagonal set to 0 and the position of the maximum are the libraries': \<open>most_similar\<close>
  gives the row and column of the maximum, or the exception raised on the way.
\<close>

definition comments_of :: "string \<Rightarrow> string list" where
  "comments_of text = map strip (filter (\<lambda>line. strip line \<noteq> []) (readlines text))"

definition similar_comments :: "(string list \<Rightarrow> exn + nat \<times> nat) \<Rightarrow> unit prog" where
  "similar_comments most_similar =
     (let input_file = os_path_join DATA_DIR ''comments.txt'';
          output_file = os_path_join DATA_DIR ''comments-similar.txt''
      in bind (enforce_security input_file) (\<lambda>_.
         bind (enforce_security output_file) (\<lambda>_.
         bind (open_read input_file) (\<lambda>text.
         let comments = comments_of text
         in if length comments < 2 then ret ()
            else
              bind (lift (most_similar comments)) (\<lambda>max_idx.
              if fst max_idx < length comments \<and> snd max_idx < length comments
              then open_write output_file
                     (comments ! fst max_idx @ nl @ comments ! snd max_idx @ nl)
              else raise (IndexError ''list index out of range''))))))"

section \<open>total_gold_sales\<close>

text \<open>
  A cell of the table \<open>tickets\<close> is NULL, an integer, a text, or a value of another storage
  class. A row is read as \<open>(type, units, price)\<close>. \<open>tickets_of\<close> is SQLite reading the
  bytes of the database file as that table (or the exception: no such table, not a
  database). The query is evaluated here where SQLite's arithmetic is exact, on integers
  of 64 bits; \<open>inexact_sum\<close> is SQLite's answer in the other cases, a float that Python
  receives, given by its \<open>str\<close> and by whether it is zero.
\<close>

datatype cell = Null | Integer int | Text string | Other

record ticket =
  ticket_type :: cell
  units :: cell
  price :: cell

record pyfloat =
  float_str :: string
  float_is_zero :: bool

record sqlite_lib =
  tickets_of :: "string \<Rightarrow> exn + ticket list"
  inexact_sum :: "ticket list \<Rightarrow> exn + pyfloat"

datatype pyval = PyNone | PyInt int | PyFloat pyfloat

definition int64 :: "int \<Rightarrow> bool" where
  "int64 v = (- (2 ^ 63) \<le> v \<and> v < 2 ^ 63)"

text \<open>\<open>units * price\<close> of one row: NULL if a factor is NULL, exact on two integers in range.\<close>

datatype product = PNull | PInt int | PInexact

definition units_times_price :: "ticket \<Rightarrow> product" where
  "units_times_price r =
     (case (units r, price r) of
        (Null, _) \<Rightarrow> PNull
      | (_, Null) \<Rightarrow> PNull
      | (Integer u, Integer p) \<Rightarrow> (if int64 u \<and> int64 p \<and> int64 (u * p) then PInt (u * p) else PInexact)
      | _ \<Rightarrow> PInexact)"

text \<open>\<open>WHERE type = 'Gold'\<close>, with the default collation.\<close>

definition is_gold :: "ticket \<Rightarrow> bool" where
  "is_gold r = (ticket_type r = Text ''Gold'')"

text \<open>
  \<open>SUM\<close> over the products in row order: NULLs are skipped, the sum of no value is NULL;
  \<open>None\<close> when a product or a partial sum is not an exact integer of 64 bits.
\<close>

fun sum_exact :: "int option \<Rightarrow> product list \<Rightarrow> int option option" where
  "sum_exact acc [] = Some acc"
| "sum_exact acc (PNull # ps) = sum_exact acc ps"
| "sum_exact acc (PInexact # ps) = None"
| "sum_exact acc (PInt v # ps) =
     (let s = (case acc of None \<Rightarrow> v | Some a \<Rightarrow> a + v)
      in if int64 s then sum_exact (Some s) ps else None)"

definition select_sum_gold :: "sqlite_lib \<Rightarrow> ticket list \<Rightarrow> exn + pyval" where
  "select_sum_gold sq rows =
     (case sum_exact None (map units_times_price (filter is_gold rows)) of
        Some None \<Rightarrow> Inr PyNone
      | Some (Some v) \<Rightarrow> Inr (PyInt v)
      | None \<Rightarrow> (case inexact_sum sq rows of Inl e \<Rightarrow> Inl e | Inr x \<Rightarrow> Inr (PyFloat x)))"

text \<open>\<open>x or 0\<close> and \<open>str\<close> of the result.\<close>

definition or_zero :: "pyval \<Rightarrow> pyval" where
  "or_zero x =
     (case x of
        PyNone \<Rightarrow> PyInt 0
      | PyInt v \<Rightarrow> PyInt v
      | PyFloat f \<Rightarrow> (if float_is_zero f then PyInt 0 else PyFloat f))"

definition str_pyval :: "pyval \<Rightarrow> string" where
  "str_pyval x = (case x of PyNone \<Rightarrow> ''None'' | PyInt v \<Rightarrow> str_int v | PyFloat f \<Rightarrow> float_str f)"

definition unable_to_open :: exn where
  "unable_to_open = LibraryError ''unable to open database file''"

text \<open>
  \<open>sqlite3.connect\<close> and the first statement: the file is opened for reading and writing
  and created empty when it is absent.
\<close>

definition sqlite_connect :: "string \<Rightarrow> string prog" where
  "sqlite_connect p = bind (emit (Connect p)) (\<lambda>_ w.
     case nodes w p of
       Some (Dir es t) \<Rightarrow> (Inl unable_to_open, w)
     | Some (RegFile c t) \<Rightarrow>
         (case rdeny w p of Some e \<Rightarrow> (Inl unable_to_open, w) | None \<Rightarrow> (Inr c, w))
     | None \<Rightarrow>
         (case wdeny w p of
            Some e \<Rightarrow> (Inl unable_to_open, w)
          | None \<Rightarrow> (Inr [], w\<lparr>nodes := (nodes w)(p \<mapsto> RegFile [] (clock w))\<rparr>)))"

definition total_gold_sales :: "sqlite_lib \<Rightarrow> unit prog" where
  "total_gold_sales sq =
     (let db_file = os_path_join DATA_DIR ''ticket-sales.db'';
          output_file = os_path_join DATA_DIR ''ticket-sales-gold.txt''
      in bind (enforce_security db_file) (\<lambda>_.
         bind (enforce_security output_file) (\<lambda>_.
         bind (sqlite_connect db_file) (\<lambda>db.
         bind (lift (tickets_of sq db)) (\<lambda>rows.
         bind (lift (select_sum_gold sq rows)) (\<lambda>fetched.
         let total_sales = or_zero fetched
         in open_write output_file (str_pyval total_sales @ nl)))))))"

section \<open>The two endpoints\<close>

record lib =
  strptime :: strptime_fn
  builtin :: builtins
  json :: json_lib
  re_search :: re_search_fn
  image_to_string :: "string \<Rightarrow> exn + string"
  most_similar :: "string list \<Rightarrow> exn + nat \<times> nat"
  sqlite :: sqlite_lib

definition task_map :: "lib \<Rightarrow> (string \<times> unit prog) list" where
  "task_map l =
     [(''count_wednesdays'', count_wednesdays (strptime l)),
      (''sort_contacts'', sort_contacts (builtin l) (json l)),
      (''recent_logs'', recent_logs),
      (''index_markdown'', index_markdown (json l)),
      (''email_sender'', email_sender (re_search l)),
      (''extract_credit_card'', extract_credit_card (re_search l) (image_to_string l)),
      (''similar_comments'', similar_comments (most_similar l)),
      (''total_gold_sales'', total_gold_sales (sqlite l))]"

type_synonym endpoint = "world \<Rightarrow> (http_exception + response) \<times> world"

definition run_task :: "lib \<Rightarrow> string \<Rightarrow> endpoint" where
  "run_task l task = (\<lambda>w.
     case map_of (task_map l) task of
       None \<Rightarrow> (Inl (HTTPException 400 ''Invalid task''), w)
     | Some f \<Rightarrow>
         (case f w of
            (Inr u, w') \<Rightarrow> (Inr (Status ''success''), w')
          | (Inl e, w') \<Rightarrow> (Inl (HTTPException 500 (str_exn e)), w')))"

definition output_map :: "(string \<times> string) list" where
  "output_map =
     [(''count_wednesdays'', ''dates-wednesdays.txt''),
      (''sort_contacts'', ''contacts-sorted.json''),
      (''recent_logs'', ''logs-recent.txt''),
      (''index_markdown'', ''docs/index.json''),
      (''email_sender'', ''email-sender.txt''),
      (''extract_credit_card'', ''credit-card.txt''),
      (''similar_comments'', ''comments-similar.txt''),
      (''total_gold_sales'', ''ticket-sales-gold.txt'')]"

text \<open>
  The names that \<open>automation.py\<close> binds at module level, by its imports, assignments and
  function definitions. A name that is looked up and is not among them (nor a built-in)
  raises \<open>NameError\<close>.
\<close>

definition module_globals :: "string list" where
  "module_globals =
     [''os'', ''sqlite3'', ''json'', ''re'', ''pytesseract'', ''datetime'',
      ''SentenceTransformer'', ''util'', ''FastAPI'', ''HTTPException'', ''Image'', ''np'',
      ''DATA_DIR'', ''app'', ''enforce_security'', ''date_formats'', ''parse_date'',
      ''count_wednesdays'', ''sort_contacts'', ''recent_logs'', ''index_markdown'',
      ''email_sender'', ''extract_credit_card'', ''similar_comments'', ''total_gold_sales'',
      ''run_task'', ''get_task_output'']"

definition name_not_defined :: "string \<Rightarrow> string" where
  "name_not_defined n = ''name '' @ quote n @ '' is not defined''"

text \<open>
  The call \<open>read_output_file(output_file)\<close>: the name is looked up first, and the module
  has no definition of it. The other branch, which the lookup never reaches, is the read
  of the whole file that the name announces.
\<close>

definition call_read_output_file :: "string \<Rightarrow> string prog" where
  "call_read_output_file output_file =
     (if ''read_output_file'' \<in> set module_globals
      then read_bytes output_file
      else raise (NameError (name_not_defined ''read_output_file'')))"

definition get_task_output :: "string \<Rightarrow> endpoint" where
  "get_task_output task = (\<lambda>w.
     case map_of output_map task of
       None \<Rightarrow> (Inl (HTTPException 400 ''Invalid task''), w)
     | Some name \<Rightarrow>
         (let output_file = os_path_join DATA_DIR name
          in case call_read_output_file output_file w of
               (Inr text, w') \<Rightarrow> (Inr (Output text), w')
             | (Inl e, w') \<Rightarrow> (Inl (HTTPException 500 (str_exn e)), w')))"

section \<open>Vocabulary of the statements and concrete inputs\<close>

text \<open>
  A small \<open>strptime\<close> for evaluating the definitions: it accepts three strings, one of
  them under two formats with different readings.
\<close>

definition sp_demo :: strptime_fn where
  "sp_demo s fmt =
     (if s = ''01-02-2023'' \<and> fmt = ''%m-%d-%Y''
        then Some \<lparr>year = 2023, month = 1, day = 2, hour = 0, minute = 0, second = 0\<rparr>
      else if s = ''01-02-2023'' \<and> fmt = ''%m-%d-%Y %I:%M %p''
        then Some \<lparr>year = 2023, month = 2, day = 1, hour = 0, minute = 0, second = 0\<rparr>
      else if s = ''2024-01-03'' \<and> fmt = ''%Y-%m-%d''
        then Some \<lparr>year = 2024, month = 1, day = 3, hour = 0, minute = 0, second = 0\<rparr>
      else None)"

text \<open>A dates file of three lines, the first one a Wednesday.\<close>

definition dates_txt :: string where
  "dates_txt = ''2024-01-03'' @ [CHR 0x0D, CHR 0x0A] @ '' 01-02-2023'' @ nl @ ''junk''"

definition w_dates :: world where
  "w_dates = \<lparr>nodes = [''data/dates.txt'' \<mapsto> RegFile dates_txt 1],
              rdeny = Map.empty, wdeny = Map.empty, clock = 2, trace = []\<rparr>"



text \<open>A table of three rows, two of them Gold: 2 at 5 and 1 at 3.\<close>

definition tickets_demo :: "ticket list" where
  "tickets_demo =
     [\<lparr>ticket_type = Text ''Gold'', units = Integer 2, price = Integer 5\<rparr>,
      \<lparr>ticket_type = Text ''Silver'', units = Integer 7, price = Integer 4\<rparr>,
      \<lparr>ticket_type = Text ''Gold'', units = Integer 1, price = Integer 3\<rparr>]"

definition sqlite_demo :: sqlite_lib where
  "sqlite_demo =
     \<lparr>tickets_of = (\<lambda>db. if db = ''tickets'' then Inr tickets_demo
                          else Inl (LibraryError ''no such table: tickets'')),
      inexact_sum = (\<lambda>rows. Inl (LibraryError ''integer overflow''))\<rparr>"


text \<open>The eight task names of the two tables.\<close>

definition known_tasks :: "string list" where
  "known_tasks =
     [''count_wednesdays'', ''sort_contacts'', ''recent_logs'', ''index_markdown'',
      ''email_sender'', ''extract_credit_card'', ''similar_comments'', ''total_gold_sales'']"

text \<open>Libraries for evaluating the definitions: each accepts one input and rejects the rest.\<close>

definition builtins_demo :: builtins where
  "builtins_demo =
     \<lparr>lt_other = (\<lambda>a b. Inl (TypeError ''not supported between these instances'')),
      eq_other = (\<lambda>a b. a = b),
      getitem_error = (\<lambda>x k. TypeError ''object is not subscriptable''),
      iter_error = (\<lambda>x. TypeError ''object is not iterable'')\<rparr>"

definition contact :: "string \<Rightarrow> string \<Rightarrow> string \<Rightarrow> json" where
  "contact i f l = JObj [(''id'', JStr i), (''first_name'', JStr f), (''last_name'', JStr l)]"

definition contacts_demo :: "json list" where
  "contacts_demo =
     [contact ''1'' ''Bob'' ''Young'', contact ''2'' ''Al'' ''Adams'',
      contact ''3'' ''Bob'' ''Young'', contact ''4'' ''Ann'' ''Young'']"

text \<open>The toy \<open>json.dump\<close> writes the \<open>id\<close> fields of an array of objects, in order.\<close>

definition dump_id :: "json \<Rightarrow> string" where
  "dump_id x =
     (case x of
        JObj kvs \<Rightarrow> (case map_of kvs ''id'' of Some (JStr i) \<Rightarrow> i | _ \<Rightarrow> ''?'')
      | _ \<Rightarrow> ''?'')"

definition json_demo :: json_lib where
  "json_demo =
     \<lparr>json_load = (\<lambda>text. if text = ''contacts'' then Inr (JArr contacts_demo)
                            else Inl (ValueError ''Expecting value: line 1 column 1 (char 0)'')),
      json_dump = (\<lambda>j. case j of JArr xs \<Rightarrow> concat (map dump_id xs) | _ \<Rightarrow> ''?'')\<rparr>"

definition lib_demo :: lib where
  "lib_demo =
     \<lparr>strptime = sp_demo,
      builtin = builtins_demo,
      json = json_demo,
      re_search = (\<lambda>pattern text. None),
      image_to_string = (\<lambda>image. Inl (LibraryError ''cannot identify image file'')),
      most_similar = (\<lambda>comments. Inr (0, 1)),
      sqlite = sqlite_demo\<rparr>"

definition w_empty :: world where
  "w_empty = \<lparr>nodes = Map.empty, rdeny = Map.empty, wdeny = Map.empty, clock = 0, trace = []\<rparr>"

definition w_output :: world where
  "w_output = \<lparr>nodes = [''data/dates-wednesdays.txt'' \<mapsto> RegFile (''1'' @ nl) 1],
               rdeny = Map.empty, wdeny = Map.empty, clock = 2, trace = []\<rparr>"

definition w_comments :: world where
  "w_comments = \<lparr>nodes = [''data/comments.txt'' \<mapsto> RegFile (''only one'' @ nl @ ''  '' @ nl) 1],
                 rdeny = Map.empty, wdeny = Map.empty, clock = 2, trace = []\<rparr>"

text \<open>
  To state what \<open>sort_contacts\<close> writes: a contact record is an object whose
  \<open>last_name\<close> and \<open>first_name\<close> are strings, and \<open>name_key\<close> is its pair of names.
  Pairs of strings are ordered lexicographically, strings lexicographically by code point.
\<close>

definition str_field :: "json \<Rightarrow> string \<Rightarrow> string option" where
  "str_field x k =
     (case x of
        JObj kvs \<Rightarrow> (case map_of kvs k of Some (JStr s) \<Rightarrow> Some s | _ \<Rightarrow> None)
      | _ \<Rightarrow> None)"

definition is_contact :: "json \<Rightarrow> bool" where
  "is_contact x = (str_field x ''last_name'' \<noteq> None \<and> str_field x ''first_name'' \<noteq> None)"

definition name_key :: "json \<Rightarrow> string \<times> string" where
  "name_key x =
     (case (str_field x ''last_name'', str_field x ''first_name'') of
        (Some l, Some f) \<Rightarrow> (l, f)
      | _ \<Rightarrow> ([], []))"

definition key_names :: "json \<times> json \<Rightarrow> string \<times> string" where
  "key_names k = (case k of (JStr l, JStr f) \<Rightarrow> (l, f) | _ \<Rightarrow> ([], []))"

definition w_contacts :: world where
  "w_contacts = \<lparr>nodes = [''data/contacts.json'' \<mapsto> RegFile ''contacts'' 1],
                 rdeny = Map.empty, wdeny = Map.empty, clock = 2, trace = []\<rparr>"

text \<open>
  To state what \<open>recent_logs\<close> writes: the modification time and the stripped first line
  of the file at a path, and the paths of the \<open>.log\<close> entries of a listing.
\<close>

definition mtime_of :: "world \<Rightarrow> string \<Rightarrow> rat" where
  "mtime_of w p = (case nodes w p of Some n \<Rightarrow> mtime n | None \<Rightarrow> 0)"

definition first_line_of :: "world \<Rightarrow> string \<Rightarrow> string" where
  "first_line_of w p =
     (case nodes w p of Some (RegFile c t) \<Rightarrow> strip (readline (universal_newlines c)) | _ \<Rightarrow> [])"

definition log_paths :: "string list \<Rightarrow> string list" where
  "log_paths names = map (os_path_join ''data/logs'') (filter (\<lambda>f. endswith f ''.log'') names)"

definition readable_file :: "world \<Rightarrow> string \<Rightarrow> bool" where
  "readable_file w p = (rdeny w p = None \<and> (\<exists>c t. nodes w p = Some (RegFile c t)))"

text \<open>An entry of a directory listing is a file name: it has no \<open>/\<close>.\<close>

definition file_name :: "string \<Rightarrow> bool" where
  "file_name f = (CHR ''/'' \<notin> set f)"

text \<open>Most recent first; files of equal time stay in the order of the listing.\<close>

definition recent_first :: "world \<Rightarrow> string list \<Rightarrow> string list" where
  "recent_first w ps = rev (sort_key (mtime_of w) (rev ps))"


definition logs_listing :: "string list" where
  "logs_listing =
     [''a.log'', ''b.log'', ''c.log'', ''d.log'', ''notes.txt'', ''e.log'', ''f.log'',
      ''g.log'', ''h.log'', ''i.log'', ''j.log'', ''k.log'', ''l.log'']"

definition w_logs :: world where
  "w_logs = \<lparr>nodes = map_of
       [(''data/logs'', Dir logs_listing 20),
        (''data/logs/notes.txt'', RegFile ''N'' 100),
        (''data/logs/a.log'', RegFile (''A'' @ nl @ ''more'') 3),
        (''data/logs/b.log'', RegFile (''B'' @ nl @ ''more'') 1),
        (''data/logs/c.log'', RegFile (''C'' @ nl @ ''more'') 12),
        (''data/logs/d.log'', RegFile (''D'' @ nl @ ''more'') 5),
        (''data/logs/e.log'', RegFile (''E'' @ nl @ ''more'') 5),
        (''data/logs/f.log'', RegFile (''F'' @ nl @ ''more'') 7),
        (''data/logs/g.log'', RegFile (''G'' @ nl @ ''more'') 2),
        (''data/logs/h.log'', RegFile (''H'' @ nl @ ''more'') 9),
        (''data/logs/i.log'', RegFile (''I'' @ nl @ ''more'') 10),
        (''data/logs/j.log'', RegFile (''J'' @ nl @ ''more'') 11),
        (''data/logs/k.log'', RegFile (''K'' @ nl @ ''more'') 4),
        (''data/logs/l.log'', RegFile (''L'' @ nl @ ''more'') 6)],
     rdeny = Map.empty, wdeny = Map.empty, clock = 30, trace = []\<rparr>"

text \<open>
  Properties of a trace (newest event first). A path is checked when the guard was called
  on it and let it pass. In \<open>opens_guarded\<close> every open of a file, connect to a database
  and existence test comes after a check of the same path; in \<open>all_guarded\<close> every access
  of any kind does.
\<close>

definition checked :: "event list \<Rightarrow> string \<Rightarrow> bool" where
  "checked es p = (Guard p \<in> set es \<and> startswith p DATA_DIR)"

fun opens_guarded :: "event list \<Rightarrow> bool" where
  "opens_guarded [] = True"
| "opens_guarded (e # es) =
     (opens_guarded es \<and>
      (case e of
         OpenR p \<Rightarrow> checked es p
       | OpenW p \<Rightarrow> checked es p
       | Connect p \<Rightarrow> checked es p
       | Exists p \<Rightarrow> checked es p
       | _ \<Rightarrow> True))"

fun all_guarded :: "event list \<Rightarrow> bool" where
  "all_guarded [] = True"
| "all_guarded (e # es) =
     (all_guarded es \<and>
      (case e of
         Guard p \<Rightarrow> True
       | OpenR p \<Rightarrow> checked es p
       | OpenW p \<Rightarrow> checked es p
       | Connect p \<Rightarrow> checked es p
       | Exists p \<Rightarrow> checked es p
       | Listdir p \<Rightarrow> checked es p
       | Getmtime p \<Rightarrow> checked es p))"

text \<open>
  \<open>valid G m G'\<close>: started on a trace where opens are guarded and the paths of \<open>G\<close> are
  checked, \<open>m\<close> leaves a trace where opens are guarded, and where the paths of \<open>G'\<close> are
  checked when it returns.
\<close>

definition valid :: "string set \<Rightarrow> 'a prog \<Rightarrow> string set \<Rightarrow> bool" where
  "valid G m G' =
     (\<forall>w. opens_guarded (trace w) \<and> (\<forall>p \<in> G. checked (trace w) p) \<longrightarrow>
        opens_guarded (trace (snd (m w))) \<and>
        (\<forall>x. fst (m w) = Inr x \<longrightarrow> (\<forall>p \<in> G'. checked (trace (snd (m w))) p)))"

text \<open>
  \<open>guards_ok\<close>: every guard call of the trace was on a path that starts with the Data Root,
  so it returned. \<open>listing_ok\<close>: the entries that \<open>os.listdir\<close> reports for the two
  directories the tasks list are file names.
\<close>

definition guards_ok :: "event list \<Rightarrow> bool" where
  "guards_ok tr = list_all (\<lambda>e. case e of Guard p \<Rightarrow> startswith p DATA_DIR | _ \<Rightarrow> True) tr"

definition entries_ok :: "world \<Rightarrow> string \<Rightarrow> bool" where
  "entries_ok w d = (case nodes w d of Some (Dir names t) \<Rightarrow> list_all file_name names | _ \<Rightarrow> True)"

definition listing_ok :: "world \<Rightarrow> bool" where
  "listing_ok w = (entries_ok w ''data/logs'' \<and> entries_ok w ''data/docs'')"

text \<open>
  \<open>gv m Q\<close>: started where the listings and the guard calls so far are fine, \<open>m\<close> leaves
  them fine, and what it returns satisfies \<open>Q\<close>.
\<close>

definition gv :: "'a prog \<Rightarrow> ('a \<Rightarrow> bool) \<Rightarrow> bool" where
  "gv m Q =
     (\<forall>w. listing_ok w \<and> guards_ok (trace w) \<longrightarrow>
        listing_ok (snd (m w)) \<and> guards_ok (trace (snd (m w))) \<and>
        (\<forall>x. fst (m w) = Inr x \<longrightarrow> Q x))"

section \<open>Properties of the date parser\<close>

lemma try_formats_None: "try_formats sp s fmts = None \<longleftrightarrow> (\<forall>fmt \<in> set fmts. sp s fmt = None)"
  by (induction fmts) (auto split: option.splits)

lemma try_formats_Some:
  "try_formats sp s fmts = Some d \<longleftrightarrow>
     (\<exists>i < length fmts. sp s (fmts ! i) = Some d \<and> (\<forall>j < i. sp s (fmts ! j) = None))"
proof (induction fmts)
  case Nil
  then show ?case by simp
next
  case (Cons f fs)
  show ?case
  proof (cases "sp s f")
    case None
    have "(\<exists>i < length (f # fs). sp s ((f # fs) ! i) = Some d \<and> (\<forall>j < i. sp s ((f # fs) ! j) = None))
        \<longleftrightarrow> (\<exists>i < length fs. sp s (fs ! i) = Some d \<and> (\<forall>j < i. sp s (fs ! j) = None))"
      (is "?L \<longleftrightarrow> ?R")
    proof
      assume ?L
      then obtain i where i: "i < length (f # fs)" "sp s ((f # fs) ! i) = Some d"
        "\<forall>j < i. sp s ((f # fs) ! j) = None" by blast
      from i None obtain k where k: "i = Suc k" by (cases i) auto
      have "\<forall>j < k. sp s (fs ! j) = None"
      proof (intro allI impI)
        fix j assume "j < k"
        then have "Suc j < i" using k by simp
        then have "sp s ((f # fs) ! Suc j) = None" using i(3) by blast
        then show "sp s (fs ! j) = None" by simp
      qed
      with i k show ?R by auto
    next
      assume ?R
      then obtain i where i: "i < length fs" "sp s (fs ! i) = Some d"
        "\<forall>j < i. sp s (fs ! j) = None" by blast
      have "\<forall>j < Suc i. sp s ((f # fs) ! j) = None"
      proof (intro allI impI)
        fix j assume "j < Suc i"
        then show "sp s ((f # fs) ! j) = None" using None i(3) by (cases j) auto
      qed
      with i show ?L by (intro exI[of _ "Suc i"]) auto
    qed
    with None Cons show ?thesis by simp
  next
    case (Some d')
    have "(\<exists>i < length (f # fs). sp s ((f # fs) ! i) = Some d \<and> (\<forall>j < i. sp s ((f # fs) ! j) = None))
        \<longleftrightarrow> d' = d"
    proof
      assume "\<exists>i < length (f # fs). sp s ((f # fs) ! i) = Some d \<and> (\<forall>j < i. sp s ((f # fs) ! j) = None)"
      then obtain i where i: "sp s ((f # fs) ! i) = Some d" "\<forall>j < i. sp s ((f # fs) ! j) = None" by blast
      show "d' = d"
      proof (cases i)
        case 0 with i Some show ?thesis by simp
      next
        case (Suc k)
        then have "sp s ((f # fs) ! 0) = None" using i(2) by blast
        with Some show ?thesis by simp
      qed
    next
      assume "d' = d"
      with Some show "\<exists>i < length (f # fs). sp s ((f # fs) ! i) = Some d \<and> (\<forall>j < i. sp s ((f # fs) ! j) = None)"
        by (intro exI[of _ 0]) auto
    qed
    with Some show ?thesis by simp
  qed
qed

text \<open>
  Claim C6. For every input string the date parser tries the formats of \<open>date_formats\<close>
  in their order on the stripped string: it returns null exactly when no format is accepted,
  and otherwise the result of the first format in the list that is accepted, whatever later
  formats would have returned.
\<close>

theorem parse_date_first_match:
  "(parse_date sp raw = None \<longleftrightarrow> (\<forall>fmt \<in> set date_formats. sp (strip raw) fmt = None)) \<and>
   (parse_date sp raw = Some d \<longleftrightarrow>
      (\<exists>i < length date_formats. sp (strip raw) (date_formats ! i) = Some d \<and>
         (\<forall>j < i. sp (strip raw) (date_formats ! j) = None)))"
  unfolding parse_date_def by (simp only: try_formats_None try_formats_Some)

text \<open>
  The string \<open>01-02-2023\<close> is accepted by two formats of the small \<open>strptime\<close>; the
  earlier one in the list decides.
\<close>

lemma strip_demo: "strip ('' 01-02-2023'' @ nl) = ''01-02-2023''"
  by (simp add: strip_def isspace_def nl_def)

theorem parse_date_first_match_witness:
  "parse_date sp_demo ('' 01-02-2023'' @ nl) =
     Some \<lparr>year = 2023, month = 1, day = 2, hour = 0, minute = 0, second = 0\<rparr> \<and>
   (\<exists>i < length date_formats.
      sp_demo (strip ('' 01-02-2023'' @ nl)) (date_formats ! i) =
        Some \<lparr>year = 2023, month = 1, day = 2, hour = 0, minute = 0, second = 0\<rparr> \<and>
      (\<forall>j < i. sp_demo (strip ('' 01-02-2023'' @ nl)) (date_formats ! j) = None))"
proof -
  have p: "parse_date sp_demo ('' 01-02-2023'' @ nl) =
     Some \<lparr>year = 2023, month = 1, day = 2, hour = 0, minute = 0, second = 0\<rparr>"
    unfolding parse_date_def strip_demo by (simp add: date_formats_def sp_demo_def)
  from p parse_date_first_match [of sp_demo "'' 01-02-2023'' @ nl"
      "\<lparr>year = 2023, month = 1, day = 2, hour = 0, minute = 0, second = 0\<rparr>"]
  show ?thesis by blast
qed

section \<open>Properties of count_wednesdays\<close>

text \<open>\<open>str_nat\<close> writes the decimal digits of its argument, on one line.\<close>

lemma digit_val_digit_char: "d < 10 \<Longrightarrow> digit_val (digit_char d) = d"
  by (simp add: digit_val_def digit_char_def)

lemma isdigit_digit_char: "d < 10 \<Longrightarrow> isdigit (digit_char d)"
  by (simp add: isdigit_def digit_char_def)

lemma read_nat_snoc: "read_nat (s @ [c]) = 10 * read_nat s + digit_val c"
  by (simp add: read_nat_def)

lemma read_nat_str_nat: "read_nat (str_nat n) = n"
proof (induction n rule: str_nat.induct)
  case (1 n)
  show ?case
  proof (cases "n < 10")
    case True
    then show ?thesis
      by (subst str_nat.simps) (simp add: read_nat_def digit_val_digit_char)
  next
    case False
    then have "read_nat (str_nat (n div 10)) = n div 10" using 1 by simp
    with False show ?thesis
      by (subst str_nat.simps) (simp add: read_nat_snoc digit_val_digit_char)
  qed
qed

lemma isdigit_str_nat: "list_all isdigit (str_nat n)"
proof (induction n rule: str_nat.induct)
  case (1 n)
  show ?case
  proof (cases "n < 10")
    case True
    then show ?thesis by (subst str_nat.simps) (simp add: isdigit_digit_char)
  next
    case False
    then have "list_all isdigit (str_nat (n div 10))" using 1 by simp
    with False show ?thesis by (subst str_nat.simps) (simp add: isdigit_digit_char)
  qed
qed

lemma str_nat_0: "str_nat 0 = ''0''"
  by code_simp

lemma readlines_one_line: "CHR 0x0A \<notin> set s \<Longrightarrow> readlines (s @ nl) = [s @ nl]"
  by (induction s) (auto simp: nl_def)

lemma isdigit_not_newline: "list_all isdigit s \<Longrightarrow> CHR 0x0A \<notin> set s"
  by (auto simp: list_all_iff isdigit_def)

lemma readlines_str_nat: "readlines (str_nat n @ nl) = [str_nat n @ nl]"
  by (rule readlines_one_line) (rule isdigit_not_newline, rule isdigit_str_nat)

text \<open>What the primitives return where they succeed.\<close>

lemma startswith_data:
  "startswith (CHR ''d'' # CHR ''a'' # CHR ''t'' # CHR ''a'' # CHR ''/'' # s) DATA_DIR"
  by (simp add: startswith_def DATA_DIR_def)

lemma join_data:
  "os_path_join DATA_DIR ''dates.txt'' = ''data/dates.txt''"
  "os_path_join DATA_DIR ''dates-wednesdays.txt'' = ''data/dates-wednesdays.txt''"
  by (simp_all add: os_path_join_def DATA_DIR_def startswith_def endswith_def)

lemma enforce_security_ok:
  "startswith p DATA_DIR \<Longrightarrow> enforce_security p w = (Inr (), w\<lparr>trace := Guard p # trace w\<rparr>)"
  by (simp add: enforce_security_def bind_def emit_def ret_def)

lemma os_path_exists_run:
  "os_path_exists p w = (Inr (nodes w p \<noteq> None), w\<lparr>trace := Exists p # trace w\<rparr>)"
  by (simp add: os_path_exists_def bind_def emit_def)

lemma open_write_ok:
  "wdeny w p = None \<Longrightarrow> \<forall>es t. nodes w p \<noteq> Some (Dir es t) \<Longrightarrow>
   open_write p text w =
     (Inr (), w\<lparr>trace := OpenW p # trace w, nodes := (nodes w)(p \<mapsto> RegFile text (clock w))\<rparr>)"
  by (auto simp: open_write_def bind_def emit_def split: option.splits node.splits)

lemma open_read_ok:
  "rdeny w p = None \<Longrightarrow> nodes w p = Some (RegFile c t) \<Longrightarrow>
   open_read p w = (Inr (universal_newlines c), w\<lparr>trace := OpenR p # trace w\<rparr>)"
  by (simp add: open_read_def read_bytes_def bind_def emit_def ret_def)

lemma count_wednesdays_missing:
  assumes "wdeny w ''data/dates-wednesdays.txt'' = None"
    and "\<forall>es t. nodes w ''data/dates-wednesdays.txt'' \<noteq> Some (Dir es t)"
    and "nodes w ''data/dates.txt'' = None"
  shows "count_wednesdays sp w =
     (Inr (), w\<lparr>trace := [OpenW ''data/dates-wednesdays.txt'', Exists ''data/dates.txt'',
                          Guard ''data/dates-wednesdays.txt'', Guard ''data/dates.txt''] @ trace w,
                nodes := (nodes w)(''data/dates-wednesdays.txt'' \<mapsto> RegFile (''0'' @ nl) (clock w))\<rparr>)"
  unfolding count_wednesdays_def join_data Let_def using assms
  by (simp add: bind_def enforce_security_ok startswith_data os_path_exists_run open_write_ok)

lemma count_wednesdays_present:
  assumes "wdeny w ''data/dates-wednesdays.txt'' = None"
    and "\<forall>es t. nodes w ''data/dates-wednesdays.txt'' \<noteq> Some (Dir es t)"
    and "nodes w ''data/dates.txt'' = Some (RegFile c t)"
    and "rdeny w ''data/dates.txt'' = None"
  shows "count_wednesdays sp w =
     (Inr (), w\<lparr>trace := [OpenW ''data/dates-wednesdays.txt'', OpenR ''data/dates.txt'',
                          Exists ''data/dates.txt'',
                          Guard ''data/dates-wednesdays.txt'', Guard ''data/dates.txt''] @ trace w,
                nodes := (nodes w)(''data/dates-wednesdays.txt'' \<mapsto>
                   RegFile (str_nat (length (filter (is_wednesday sp) (readlines (universal_newlines c)))) @ nl)
                     (clock w))\<rparr>)"
  unfolding count_wednesdays_def join_data Let_def using assms
  by (simp add: bind_def enforce_security_ok startswith_data os_path_exists_run open_write_ok open_read_ok)

text \<open>
  Claim C3. Where the output file can be written: when \<open>data/dates.txt\<close> is missing,
  \<open>count_wednesdays\<close> succeeds and the output file holds \<open>0\<close> and a newline; when it
  is a readable file whose text has the lines \<open>dates\<close>, of which \<open>K\<close> parse to a date
  whose weekday is Wednesday, it succeeds and the output file holds the decimal numeral of
  \<open>K\<close> and a newline, which is a single line, and is \<open>0\<close> when there is no line.
\<close>

theorem count_wednesdays_writes_count:
  assumes w: "wdeny w ''data/dates-wednesdays.txt'' = None"
    and d: "\<forall>es t. nodes w ''data/dates-wednesdays.txt'' \<noteq> Some (Dir es t)"
  shows "(nodes w ''data/dates.txt'' = None \<longrightarrow>
            fst (count_wednesdays sp w) = Inr () \<and>
            file_content (snd (count_wednesdays sp w)) ''data/dates-wednesdays.txt'' = Some (''0'' @ nl))
      \<and> (nodes w ''data/dates.txt'' = Some (RegFile c t) \<and> rdeny w ''data/dates.txt'' = None \<longrightarrow>
            (let dates = readlines (universal_newlines c);
                 K = card {i. i < length dates \<and> is_wednesday sp (dates ! i)}
             in fst (count_wednesdays sp w) = Inr () \<and>
                file_content (snd (count_wednesdays sp w)) ''data/dates-wednesdays.txt'' = Some (str_nat K @ nl) \<and>
                read_nat (str_nat K) = K \<and>
                readlines (str_nat K @ nl) = [str_nat K @ nl] \<and>
                (dates = [] \<longrightarrow> str_nat K = ''0'')))"
proof (intro conjI impI)
  assume n: "nodes w ''data/dates.txt'' = None"
  show "fst (count_wednesdays sp w) = Inr ()"
    by (simp add: count_wednesdays_missing [OF w d n])
  show "file_content (snd (count_wednesdays sp w)) ''data/dates-wednesdays.txt'' = Some (''0'' @ nl)"
    by (simp add: count_wednesdays_missing [OF w d n] file_content_def)
next
  assume a: "nodes w ''data/dates.txt'' = Some (RegFile c t) \<and> rdeny w ''data/dates.txt'' = None"
  define dates where "dates = readlines (universal_newlines c)"
  define K where "K = card {i. i < length dates \<and> is_wednesday sp (dates ! i)}"
  have K: "length (filter (is_wednesday sp) dates) = K"
    unfolding K_def by (rule length_filter_conv_card)
  note run = count_wednesdays_present [OF w d conjunct1 [OF a] conjunct2 [OF a], of sp]
  have r: "fst (count_wednesdays sp w) = Inr ()"
    by (simp add: run)
  have f: "file_content (snd (count_wednesdays sp w)) ''data/dates-wednesdays.txt'' = Some (str_nat K @ nl)"
    using K by (simp add: run file_content_def dates_def)
  have e: "dates = [] \<longrightarrow> str_nat K = ''0''"
    by (auto simp: K_def str_nat_0)
  show "let dates = readlines (universal_newlines c);
            K = card {i. i < length dates \<and> is_wednesday sp (dates ! i)}
        in fst (count_wednesdays sp w) = Inr () \<and>
           file_content (snd (count_wednesdays sp w)) ''data/dates-wednesdays.txt'' = Some (str_nat K @ nl) \<and>
           read_nat (str_nat K) = K \<and>
           readlines (str_nat K @ nl) = [str_nat K @ nl] \<and>
           (dates = [] \<longrightarrow> str_nat K = ''0'')"
    using r f e read_nat_str_nat readlines_str_nat
    unfolding Let_def dates_def[symmetric] K_def[symmetric] by simp
qed

lemma dates_txt_lines:
  "readlines (universal_newlines dates_txt) = [''2024-01-03'' @ nl, '' 01-02-2023'' @ nl, ''junk'']"
  by (simp add: dates_txt_def nl_def)

lemma is_wednesday_demo:
  "is_wednesday sp_demo (''2024-01-03'' @ nl)"
  "\<not> is_wednesday sp_demo ('' 01-02-2023'' @ nl)"
  "\<not> is_wednesday sp_demo ''junk''"
  by (simp_all add: is_wednesday_def parse_date_def strip_def isspace_def nl_def date_formats_def
      sp_demo_def weekday_def toordinal_def days_before_year_def days_before_month_def
      DAYS_BEFORE_MONTH_def is_leap_def)

lemma str_nat_1: "str_nat (Suc 0) = ''1''"
  by code_simp

theorem count_wednesdays_writes_count_witness:
  "wdeny w_dates ''data/dates-wednesdays.txt'' = None \<and>
   (\<forall>es t. nodes w_dates ''data/dates-wednesdays.txt'' \<noteq> Some (Dir es t)) \<and>
   nodes w_dates ''data/dates.txt'' = Some (RegFile dates_txt 1) \<and>
   rdeny w_dates ''data/dates.txt'' = None \<and>
   fst (count_wednesdays sp_demo w_dates) = Inr () \<and>
   file_content (snd (count_wednesdays sp_demo w_dates)) ''data/dates-wednesdays.txt'' = Some (''1'' @ nl)"
proof -
  have w: "wdeny w_dates ''data/dates-wednesdays.txt'' = None"
    by (simp add: w_dates_def)
  have d: "\<forall>es t. nodes w_dates ''data/dates-wednesdays.txt'' \<noteq> Some (Dir es t)"
    by (simp add: w_dates_def)
  have n: "nodes w_dates ''data/dates.txt'' = Some (RegFile dates_txt 1) \<and>
           rdeny w_dates ''data/dates.txt'' = None"
    by (simp add: w_dates_def)
  have k: "card {i. i < length (readlines (universal_newlines dates_txt)) \<and>
                    is_wednesday sp_demo (readlines (universal_newlines dates_txt) ! i)} = 1"
    unfolding length_filter_conv_card [symmetric] dates_txt_lines
    using is_wednesday_demo by simp
  from count_wednesdays_writes_count [OF w d, where c = dates_txt and t = 1 and sp = sp_demo] n k
  have "fst (count_wednesdays sp_demo w_dates) = Inr () \<and>
        file_content (snd (count_wednesdays sp_demo w_dates)) ''data/dates-wednesdays.txt'' =
          Some (str_nat 1 @ nl)"
    by (simp add: Let_def)
  with w d n show ?thesis by (simp add: str_nat_1)
qed

section \<open>Properties of total_gold_sales\<close>



lemma lift_run: "lift r w = (r, w)"
  by (simp add: lift_def)










section \<open>Properties of the endpoints\<close>

lemma task_names: "map fst (task_map l) = known_tasks"
  by (simp add: task_map_def known_tasks_def)

lemma output_names: "map fst output_map = known_tasks"
  by (simp add: output_map_def known_tasks_def)

lemma map_of_task_map_None: "task \<notin> set known_tasks \<Longrightarrow> map_of (task_map l) task = None"
proof -
  assume "task \<notin> set known_tasks"
  then have "task \<notin> fst ` set (task_map l)"
    using task_names [of l] by (metis set_map)
  then show ?thesis by (simp add: map_of_eq_None_iff)
qed

lemma distinct_known_tasks: "distinct known_tasks"
  by (simp add: known_tasks_def)

lemma map_of_task_map_Some: "(task, f) \<in> set (task_map l) \<Longrightarrow> map_of (task_map l) task = Some f"
  by (rule map_of_is_SomeI) (simp_all add: task_names distinct_known_tasks)

text \<open>
  Claim C7. \<open>run_task\<close> with a name outside the known set returns the HTTP 400 failure and
  leaves the world as it was: no file is changed and no access is recorded. With a name of
  the table it runs the task's function: when that returns, the response is
  \<open>{"status": "success"}\<close>; when it raises \<open>e\<close>, the response is HTTP 500 with \<open>str(e)\<close>;
  the world is the one the task left in both cases.
\<close>

theorem run_task_dispatch:
  "(task \<notin> set known_tasks \<longrightarrow>
      run_task l task w = (Inl (HTTPException 400 ''Invalid task''), w)) \<and>
   (\<forall>f. (task, f) \<in> set (task_map l) \<longrightarrow>
      (\<forall>w'. f w = (Inr (), w') \<longrightarrow> run_task l task w = (Inr (Status ''success''), w')) \<and>
      (\<forall>e w'. f w = (Inl e, w') \<longrightarrow>
         run_task l task w = (Inl (HTTPException 500 (str_exn e)), w')))"
proof (intro conjI impI allI)
  assume "task \<notin> set known_tasks"
  then show "run_task l task w = (Inl (HTTPException 400 ''Invalid task''), w)"
    by (simp add: run_task_def map_of_task_map_None)
next
  fix f w' assume "(task, f) \<in> set (task_map l)" "f w = (Inr (), w')"
  then show "run_task l task w = (Inr (Status ''success''), w')"
    by (simp add: run_task_def map_of_task_map_Some)
next
  fix f e w' assume "(task, f) \<in> set (task_map l)" "f w = (Inl e, w')"
  then show "run_task l task w = (Inl (HTTPException 500 (str_exn e)), w')"
    by (simp add: run_task_def map_of_task_map_Some)
qed

lemma open_read_missing:
  "rdeny w p = None \<Longrightarrow> nodes w p = None \<Longrightarrow>
   open_read p w = (Inl (FileNotFoundError (no_such_file p)), w\<lparr>trace := OpenR p # trace w\<rparr>)"
  by (simp add: open_read_def read_bytes_def bind_def emit_def)

lemma join_contacts:
  "os_path_join DATA_DIR ''contacts.json'' = ''data/contacts.json''"
  "os_path_join DATA_DIR ''contacts-sorted.json'' = ''data/contacts-sorted.json''"
  by (simp_all add: os_path_join_def DATA_DIR_def startswith_def endswith_def)

lemma sort_contacts_missing:
  "sort_contacts bi js w_empty =
     (Inl (FileNotFoundError (no_such_file ''data/contacts.json'')),
      w_empty\<lparr>trace := [OpenR ''data/contacts.json'', Guard ''data/contacts-sorted.json'',
                         Guard ''data/contacts.json'']\<rparr>)"
  unfolding sort_contacts_def join_contacts Let_def
  by (simp add: bind_def enforce_security_ok startswith_data open_read_missing w_empty_def)

theorem run_task_dispatch_witness:
  "''no_such_task'' \<notin> set known_tasks \<and>
   run_task lib_demo ''no_such_task'' w_dates = (Inl (HTTPException 400 ''Invalid task''), w_dates) \<and>
   (''count_wednesdays'', count_wednesdays sp_demo) \<in> set (task_map lib_demo) \<and>
   fst (run_task lib_demo ''count_wednesdays'' w_dates) = Inr (Status ''success'') \<and>
   (''sort_contacts'', sort_contacts builtins_demo json_demo) \<in> set (task_map lib_demo) \<and>
   fst (run_task lib_demo ''sort_contacts'' w_empty) =
     Inl (HTTPException 500 (no_such_file ''data/contacts.json''))"
proof -
  have n: "''no_such_task'' \<notin> set known_tasks" by (simp add: known_tasks_def)
  have c: "(''count_wednesdays'', count_wednesdays sp_demo) \<in> set (task_map lib_demo)"
    by (simp add: task_map_def lib_demo_def)
  have s: "(''sort_contacts'', sort_contacts builtins_demo json_demo) \<in> set (task_map lib_demo)"
    by (simp add: task_map_def lib_demo_def)
  have "fst (count_wednesdays sp_demo w_dates) = Inr ()"
    by (subst count_wednesdays_present [where c = dates_txt and t = 1])
      (simp_all add: w_dates_def)
  then have cr: "count_wednesdays sp_demo w_dates = (Inr (), snd (count_wednesdays sp_demo w_dates))"
    by (simp add: prod_eq_iff)
  note d1 = run_task_dispatch [of "''no_such_task''" lib_demo w_dates]
  note d2 = run_task_dispatch [of "''count_wednesdays''" lib_demo w_dates]
  note d3 = run_task_dispatch [of "''sort_contacts''" lib_demo w_empty]
  have 1: "run_task lib_demo ''no_such_task'' w_dates = (Inl (HTTPException 400 ''Invalid task''), w_dates)"
    using d1 n by blast
  have 2: "run_task lib_demo ''count_wednesdays'' w_dates =
      (Inr (Status ''success''), snd (count_wednesdays sp_demo w_dates))"
    using d2 c cr by blast
  have 3: "run_task lib_demo ''sort_contacts'' w_empty =
      (Inl (HTTPException 500 (str_exn (FileNotFoundError (no_such_file ''data/contacts.json'')))),
       w_empty\<lparr>trace := [OpenR ''data/contacts.json'', Guard ''data/contacts-sorted.json'',
                         Guard ''data/contacts.json'']\<rparr>)"
    using d3 s sort_contacts_missing [of builtins_demo json_demo] by blast
  from n c s 1 2 3 show ?thesis by simp
qed

section \<open>Properties of get\<close>

text \<open>
  Claim C1, as the code has it. The module never defines \<open>read_output_file\<close>: for every
  known task the call raises \<open>NameError\<close> inside the \<open>try\<close>, so \<open>get\<close> answers HTTP 500
  and reads nothing, also when the output file is there. Here the output file of
  \<open>count_wednesdays\<close> holds \<open>1\<close> and a newline.
\<close>

theorem get_task_output_name_error:
  "file_content w_output ''data/dates-wednesdays.txt'' = Some (''1'' @ nl) \<and>
   get_task_output ''count_wednesdays'' w_output =
     (Inl (HTTPException 500 (''name '' @ quote ''read_output_file'' @ '' is not defined'')), w_output)"
  by (simp add: file_content_def w_output_def get_task_output_def output_map_def
      call_read_output_file_def module_globals_def raise_def name_not_defined_def)

lemma get_task_output_known:
  "task \<in> set known_tasks \<Longrightarrow>
   get_task_output task w = (Inl (HTTPException 500 (name_not_defined ''read_output_file'')), w)"
  by (auto simp: known_tasks_def get_task_output_def output_map_def
      call_read_output_file_def module_globals_def raise_def)

lemma get_task_output_unknown:
  "task \<notin> set known_tasks \<Longrightarrow>
   get_task_output task w = (Inl (HTTPException 400 ''Invalid task''), w)"
proof -
  assume "task \<notin> set known_tasks"
  then have "task \<notin> fst ` set output_map"
    using output_names by (metis set_map)
  then have "map_of output_map task = None" by (simp add: map_of_eq_None_iff)
  then show ?thesis by (simp add: get_task_output_def)
qed

section \<open>Properties of similar_comments\<close>

lemma strip_nl: "strip nl = []"
  by (simp add: strip_def nl_def isspace_def)

lemma length_filter_mono:
  "(\<And>x. P x \<Longrightarrow> Q x) \<Longrightarrow> length (filter P xs) \<le> length (filter Q xs)"
  by (induction xs) auto

text \<open>A line that is not blank is not empty, so fewer than 2 non-empty lines leave fewer than 2 comments.\<close>

lemma nonempty_lines_bound:
  "length (filter (\<lambda>line. strip line \<noteq> []) ls) \<le> length (filter (\<lambda>line. line \<noteq> nl \<and> line \<noteq> []) ls)"
proof (rule length_filter_mono)
  fix x :: string
  assume a: "strip x \<noteq> []"
  have "strip [] = []" by (simp add: strip_def)
  with a strip_nl show "x \<noteq> nl \<and> x \<noteq> []" by auto
qed

lemma join_comments:
  "os_path_join DATA_DIR ''comments.txt'' = ''data/comments.txt''"
  "os_path_join DATA_DIR ''comments-similar.txt'' = ''data/comments-similar.txt''"
  by (simp_all add: os_path_join_def DATA_DIR_def startswith_def endswith_def)

lemma similar_comments_few:
  assumes "nodes w ''data/comments.txt'' = Some (RegFile c t)"
    and "rdeny w ''data/comments.txt'' = None"
    and "length (filter (\<lambda>line. strip line \<noteq> []) (readlines (universal_newlines c))) < 2"
  shows "similar_comments ms w =
     (Inr (), w\<lparr>trace := [OpenR ''data/comments.txt'', Guard ''data/comments-similar.txt'',
                          Guard ''data/comments.txt''] @ trace w\<rparr>)"
  unfolding similar_comments_def join_comments Let_def using assms
  by (simp add: bind_def enforce_security_ok startswith_data open_read_ok comments_of_def ret_def)

text \<open>
  Claim C8. Where \<open>data/comments.txt\<close> is a readable file with fewer than 2 lines that
  are not blank (so also with fewer than 2 non-empty lines, by \<open>nonempty_lines_bound\<close>),
  \<open>similar_comments\<close> returns without an exception, no file is created or changed, the
  only accesses are the two guard calls and the read of the comments file, and \<open>run\<close>
  answers with success.
\<close>

theorem similar_comments_no_output:
  assumes "nodes w ''data/comments.txt'' = Some (RegFile c t)"
    and "rdeny w ''data/comments.txt'' = None"
    and "length (filter (\<lambda>line. strip line \<noteq> []) (readlines (universal_newlines c))) < 2"
  shows "fst (similar_comments ms w) = Inr () \<and>
         nodes (snd (similar_comments ms w)) = nodes w \<and>
         trace (snd (similar_comments ms w)) =
           [OpenR ''data/comments.txt'', Guard ''data/comments-similar.txt'',
            Guard ''data/comments.txt''] @ trace w \<and>
         fst (run_task l ''similar_comments'' w) = Inr (Status ''success'') \<and>
         nodes (snd (run_task l ''similar_comments'' w)) = nodes w"
proof -
  note run = similar_comments_few [OF assms(1) assms(2) assms(3)]
  have "map_of (task_map l) ''similar_comments'' = Some (similar_comments (most_similar l))"
    by (simp add: task_map_def)
  then show ?thesis
    by (simp add: run run_task_def)
qed

lemma comments_demo_lines:
  "readlines (universal_newlines (''only one'' @ nl @ ''  '' @ nl)) = [''only one'' @ nl, ''  '' @ nl]"
  by (simp add: nl_def)

theorem similar_comments_no_output_witness:
  "nodes w_comments ''data/comments.txt'' = Some (RegFile (''only one'' @ nl @ ''  '' @ nl) 1) \<and>
   length (filter (\<lambda>line. strip line \<noteq> [])
     (readlines (universal_newlines (''only one'' @ nl @ ''  '' @ nl)))) = 1 \<and>
   fst (similar_comments (most_similar lib_demo) w_comments) = Inr () \<and>
   nodes (snd (similar_comments (most_similar lib_demo) w_comments)) = nodes w_comments \<and>
   fst (run_task lib_demo ''similar_comments'' w_comments) = Inr (Status ''success'') \<and>
   file_content (snd (run_task lib_demo ''similar_comments'' w_comments)) ''data/comments-similar.txt'' = None"
proof -
  have 1: "nodes w_comments ''data/comments.txt'' = Some (RegFile (''only one'' @ nl @ ''  '' @ nl) 1)"
    by (simp add: w_comments_def)
  have 2: "rdeny w_comments ''data/comments.txt'' = None" by (simp add: w_comments_def)
  have 4: "length (filter (\<lambda>line. strip line \<noteq> [])
     (readlines (universal_newlines (''only one'' @ nl @ ''  '' @ nl)))) = 1"
    unfolding comments_demo_lines by (simp add: strip_def isspace_def nl_def)
  have 5: "file_content w_comments ''data/comments-similar.txt'' = None"
    by (simp add: file_content_def w_comments_def)
  have 3: "length (filter (\<lambda>line. strip line \<noteq> [])
     (readlines (universal_newlines (''only one'' @ nl @ ''  '' @ nl)))) < 2"
    using 4 by simp
  from similar_comments_no_output [OF 1 2 3, of "most_similar lib_demo" lib_demo] 1 4 5
  show ?thesis by (simp add: file_content_def)
qed

section \<open>Properties of sort_contacts\<close>

lemma str_lt_less: "str_lt a b \<longleftrightarrow> a < b"
  by (induction a b rule: str_lt.induct) (auto simp: less_char_def)

lemma tuple_lt_names:
  "tuple_lt bi (JStr l, JStr f) (JStr l', JStr f') = Inr ((l, f) < (l', f'))"
  by (auto simp: tuple_lt_def py_eq_def py_lt_def str_lt_less less_prod_def)

lemma insort_lt_insort_key:
  assumes "\<forall>y \<in> set ys. lt (fst y) (fst x) = Inr (g (fst y) < g (fst x))"
  shows "insort_lt lt x ys = Inr (insort_key (\<lambda>kx. g (fst kx)) x ys)"
  using assms by (induction ys) (auto split: bool.splits)

lemma sort_stable_sort_key:
  assumes "\<forall>x \<in> set kxs. \<forall>y \<in> set kxs. lt (fst y) (fst x) = Inr (g (fst y) < g (fst x))"
  shows "sort_stable lt kxs = Inr (sort_key (\<lambda>kx. g (fst kx)) kxs)"
  using assms
proof (induction kxs)
  case Nil
  then show ?case by simp
next
  case (Cons x kxs)
  have ih: "sort_stable lt kxs = Inr (sort_key (\<lambda>kx. g (fst kx)) kxs)"
    using Cons by simp
  have "insort_lt lt x (sort_key (\<lambda>kx. g (fst kx)) kxs) =
        Inr (insort_key (\<lambda>kx. g (fst kx)) x (sort_key (\<lambda>kx. g (fst kx)) kxs))"
    by (rule insort_lt_insort_key) (use Cons.prems in simp)
  with ih show ?case by simp
qed

lemma insort_key_map:
  "insort_key f (h x) (map h ys) = map h (insort_key (\<lambda>y. f (h y)) x ys)"
  by (induction ys) auto

lemma sort_key_map: "sort_key f (map h xs) = map h (sort_key (\<lambda>y. f (h y)) xs)"
  by (induction xs) (auto simp: insort_key_map)

lemma contact_key_names:
  "is_contact x \<Longrightarrow> \<exists>l f. contact_key bi x = Inr (JStr l, JStr f) \<and> name_key x = (l, f)"
  by (auto simp: is_contact_def str_field_def contact_key_def getitem_def name_key_def
      split: json.splits option.splits)

lemma with_keys_contacts:
  "\<forall>x \<in> set xs. is_contact x \<Longrightarrow>
   \<exists>ks. with_keys (contact_key bi) xs = Inr (map (\<lambda>x. (ks x, x)) xs) \<and>
        (\<forall>x \<in> set xs. \<exists>l f. ks x = (JStr l, JStr f) \<and> name_key x = (l, f))"
proof -
  assume a: "\<forall>x \<in> set xs. is_contact x"
  define ks where "ks x = (case contact_key bi x of Inr k \<Rightarrow> k | Inl e \<Rightarrow> (JNull, JNull))" for x
  have k: "\<exists>l f. contact_key bi x = Inr (ks x) \<and> ks x = (JStr l, JStr f) \<and> name_key x = (l, f)"
    if "is_contact x" for x
    using contact_key_names [OF that, of bi] by (auto simp: ks_def)
  have "with_keys (contact_key bi) xs = Inr (map (\<lambda>x. (ks x, x)) xs)"
    using a
  proof (induction xs)
    case Nil
    then show ?case by simp
  next
    case (Cons x xs)
    then have "is_contact x" by simp
    from k [OF this] Cons show ?case by auto
  qed
  with a k show ?thesis by blast
qed

lemma sorted_contacts_sort_key:
  assumes "\<forall>x \<in> set xs. is_contact x"
  shows "sorted_contacts bi (JArr xs) = Inr (sort_key name_key xs)"
proof -
  from with_keys_contacts [OF assms, of bi] obtain ks where
    wk: "with_keys (contact_key bi) xs = Inr (map (\<lambda>x. (ks x, x)) xs)" and
    ks: "\<forall>x \<in> set xs. \<exists>l f. ks x = (JStr l, JStr f) \<and> name_key x = (l, f)"
    by blast
  have nm: "key_names (ks x) = name_key x" if "x \<in> set xs" for x
    using ks that by (auto simp: key_names_def)
  have lt: "\<forall>x \<in> set (map (\<lambda>x. (ks x, x)) xs). \<forall>y \<in> set (map (\<lambda>x. (ks x, x)) xs).
      tuple_lt bi (fst y) (fst x) = Inr (key_names (fst y) < key_names (fst x))"
  proof (intro ballI)
    fix x y assume "x \<in> set (map (\<lambda>x. (ks x, x)) xs)" "y \<in> set (map (\<lambda>x. (ks x, x)) xs)"
    then obtain a b where ab: "x = (ks a, a)" "a \<in> set xs" "y = (ks b, b)" "b \<in> set xs" by auto
    from ks ab obtain l f l' f' where "ks a = (JStr l, JStr f)" "ks b = (JStr l', JStr f')" by blast
    then show "tuple_lt bi (fst y) (fst x) = Inr (key_names (fst y) < key_names (fst x))"
      using ab by (simp add: tuple_lt_names key_names_def)
  qed
  have "sort_stable (tuple_lt bi) (map (\<lambda>x. (ks x, x)) xs) =
        Inr (sort_key (\<lambda>kx. key_names (fst kx)) (map (\<lambda>x. (ks x, x)) xs))"
    by (rule sort_stable_sort_key [OF lt])
  also have "sort_key (\<lambda>kx. key_names (fst kx)) (map (\<lambda>x. (ks x, x)) xs) =
        map (\<lambda>x. (ks x, x)) (sort_key (\<lambda>x. key_names (ks x)) xs)"
    by (simp add: sort_key_map)
  also have "sort_key (\<lambda>x. key_names (ks x)) xs = sort_key name_key xs"
  proof -
    have "\<forall>x \<in> set xs. key_names (ks x) = name_key x" using nm by blast
    then show ?thesis
    proof (induction xs)
      case Nil
      then show ?case by simp
    next
      case (Cons a xs)
      then have e: "sort_key (\<lambda>x. key_names (ks x)) xs = sort_key name_key xs" by simp
      have "insort_key (\<lambda>x. key_names (ks x)) a ys = insort_key name_key a ys"
        if "\<forall>x \<in> set ys. key_names (ks x) = name_key x" for ys
        using that Cons.prems by (induction ys) auto
      from this [of "sort_key name_key xs"] e Cons.prems show ?case by simp
    qed
  qed
  finally have st: "sort_stable (tuple_lt bi) (map (\<lambda>x. (ks x, x)) xs) =
        Inr (map (\<lambda>x. (ks x, x)) (sort_key name_key xs))" .
  show ?thesis
    by (simp add: sorted_contacts_def py_iter_def wk py_sorted_def st comp_def)
qed

lemma sort_contacts_run:
  assumes "nodes w ''data/contacts.json'' = Some (RegFile c t)"
    and "rdeny w ''data/contacts.json'' = None"
    and "wdeny w ''data/contacts-sorted.json'' = None"
    and "\<forall>es t. nodes w ''data/contacts-sorted.json'' \<noteq> Some (Dir es t)"
    and "json_load js (universal_newlines c) = Inr (JArr contacts)"
    and "\<forall>x \<in> set contacts. is_contact x"
  shows "sort_contacts bi js w =
     (Inr (), w\<lparr>trace := [OpenW ''data/contacts-sorted.json'', OpenR ''data/contacts.json'',
                          Guard ''data/contacts-sorted.json'', Guard ''data/contacts.json''] @ trace w,
                nodes := (nodes w)(''data/contacts-sorted.json'' \<mapsto>
                   RegFile (json_dump js (JArr (sort_key name_key contacts))) (clock w))\<rparr>)"
  unfolding sort_contacts_def join_contacts Let_def
  using assms(1-5) sorted_contacts_sort_key [OF assms(6), of bi]
  by (simp add: bind_def enforce_security_ok startswith_data open_read_ok lift_run open_write_ok)

text \<open>
  Claim C4. Where \<open>data/contacts.json\<close> is readable, \<open>json.load\<close> reads it as an array of
  contact records (objects whose \<open>last_name\<close> and \<open>first_name\<close> are strings) and the
  output file can be written: \<open>sort_contacts\<close> succeeds and writes \<open>json.dump\<close> of a list
  that is a permutation of the input, is ordered non-decreasing by (last name, first name),
  and keeps the records of each key in their original relative order.
\<close>

theorem sort_contacts_stable_sorted:
  assumes "nodes w ''data/contacts.json'' = Some (RegFile c t)"
    and "rdeny w ''data/contacts.json'' = None"
    and "wdeny w ''data/contacts-sorted.json'' = None"
    and "\<forall>es t. nodes w ''data/contacts-sorted.json'' \<noteq> Some (Dir es t)"
    and "json_load js (universal_newlines c) = Inr (JArr contacts)"
    and "\<forall>x \<in> set contacts. is_contact x"
  shows "\<exists>sorted_list.
           fst (sort_contacts bi js w) = Inr () \<and>
           file_content (snd (sort_contacts bi js w)) ''data/contacts-sorted.json'' =
             Some (json_dump js (JArr sorted_list)) \<and>
           mset sorted_list = mset contacts \<and>
           sorted (map name_key sorted_list) \<and>
           (\<forall>k. filter (\<lambda>x. name_key x = k) sorted_list = filter (\<lambda>x. name_key x = k) contacts)"
proof (intro exI [of _ "sort_key name_key contacts"] conjI)
  note run = sort_contacts_run [OF assms, of bi]
  show "fst (sort_contacts bi js w) = Inr ()" by (simp add: run)
  show "file_content (snd (sort_contacts bi js w)) ''data/contacts-sorted.json'' =
          Some (json_dump js (JArr (sort_key name_key contacts)))"
    by (simp add: run file_content_def)
  show "mset (sort_key name_key contacts) = mset contacts" by simp
  show "sorted (map name_key (sort_key name_key contacts))" by (rule sorted_sort_key)
  show "\<forall>k. filter (\<lambda>x. name_key x = k) (sort_key name_key contacts) =
            filter (\<lambda>x. name_key x = k) contacts"
    by (simp add: sort_key_stable)
qed

lemma name_key_contact: "name_key (contact i f l) = (l, f)"
  by (simp add: name_key_def str_field_def contact_def)

lemma is_contact_contact: "is_contact (contact i f l)"
  by (simp add: is_contact_def str_field_def contact_def)

lemma dump_id_contact: "dump_id (contact i f l) = i"
  by (simp add: dump_id_def contact_def)

lemma sort_contacts_demo:
  "sort_key name_key contacts_demo =
     [contact ''2'' ''Al'' ''Adams'', contact ''4'' ''Ann'' ''Young'',
      contact ''1'' ''Bob'' ''Young'', contact ''3'' ''Bob'' ''Young'']"
  by (simp add: contacts_demo_def name_key_contact less_eq_prod_def)

theorem sort_contacts_stable_sorted_witness:
  "nodes w_contacts ''data/contacts.json'' = Some (RegFile ''contacts'' 1) \<and>
   json_load json_demo (universal_newlines ''contacts'') = Inr (JArr contacts_demo) \<and>
   list_all is_contact contacts_demo \<and>
   fst (sort_contacts builtins_demo json_demo w_contacts) = Inr () \<and>
   file_content (snd (sort_contacts builtins_demo json_demo w_contacts)) ''data/contacts-sorted.json'' =
     Some ''2413''"
proof -
  have 1: "nodes w_contacts ''data/contacts.json'' = Some (RegFile ''contacts'' 1)"
    by (simp add: w_contacts_def)
  have 2: "rdeny w_contacts ''data/contacts.json'' = None" by (simp add: w_contacts_def)
  have 3: "wdeny w_contacts ''data/contacts-sorted.json'' = None" by (simp add: w_contacts_def)
  have 4: "\<forall>es t. nodes w_contacts ''data/contacts-sorted.json'' \<noteq> Some (Dir es t)"
    by (simp add: w_contacts_def)
  have 5: "json_load json_demo (universal_newlines ''contacts'') = Inr (JArr contacts_demo)"
    by (simp add: json_demo_def)
  have 6: "\<forall>x \<in> set contacts_demo. is_contact x"
    by (simp add: contacts_demo_def is_contact_contact)
  have 7: "list_all is_contact contacts_demo"
    by (simp add: contacts_demo_def is_contact_contact)
  from sort_contacts_stable_sorted [OF 1 2 3 4 5 6, of builtins_demo]
  have r: "fst (sort_contacts builtins_demo json_demo w_contacts) = Inr ()" by blast
  have "file_content (snd (sort_contacts builtins_demo json_demo w_contacts)) ''data/contacts-sorted.json'' =
     Some (json_dump json_demo (JArr (sort_key name_key contacts_demo)))"
    by (simp add: sort_contacts_run [OF 1 2 3 4 5 6] file_content_def)
  also have "json_dump json_demo (JArr (sort_key name_key contacts_demo)) = ''2413''"
    unfolding sort_contacts_demo by (simp add: json_demo_def dump_id_contact)
  finally show ?thesis using 1 5 7 r by simp
qed

section \<open>Properties of recent_logs\<close>

lemma join_logs:
  "os_path_join DATA_DIR ''logs'' = ''data/logs''"
  "os_path_join DATA_DIR ''logs-recent.txt'' = ''data/logs-recent.txt''"
  by (simp_all add: os_path_join_def DATA_DIR_def startswith_def endswith_def)

lemma os_listdir_ok:
  "rdeny w p = None \<Longrightarrow> nodes w p = Some (Dir es t) \<Longrightarrow>
   os_listdir p w = (Inr es, w\<lparr>trace := Listdir p # trace w\<rparr>)"
  by (simp add: os_listdir_def bind_def emit_def)

lemma os_path_getmtime_ok:
  "nodes w p = Some n \<Longrightarrow>
   os_path_getmtime p w = (Inr (mtime_of w p), w\<lparr>trace := Getmtime p # trace w\<rparr>)"
  by (simp add: os_path_getmtime_def bind_def emit_def mtime_of_def)

lemma mtime_of_trace [simp]: "mtime_of (w\<lparr>trace := tr\<rparr>) p = mtime_of w p"
  by (simp add: mtime_of_def)

lemma first_line_of_trace [simp]: "first_line_of (w\<lparr>trace := tr\<rparr>) p = first_line_of w p"
  by (simp add: first_line_of_def)

lemma readable_file_trace [simp]: "readable_file (w\<lparr>trace := tr\<rparr>) p = readable_file w p"
  by (simp add: readable_file_def)

lemma getmtimes_ok:
  "\<forall>p \<in> set ps. readable_file w p \<Longrightarrow>
   getmtimes ps w =
     (Inr (map (\<lambda>p. (mtime_of w p, p)) ps), w\<lparr>trace := rev (map Getmtime ps) @ trace w\<rparr>)"
proof (induction ps arbitrary: w)
  case Nil
  then show ?case by (simp add: ret_def)
next
  case (Cons p ps)
  from Cons.prems obtain c t where n: "nodes w p = Some (RegFile c t)"
    by (auto simp: readable_file_def)
  have "\<forall>q \<in> set ps. readable_file (w\<lparr>trace := Getmtime p # trace w\<rparr>) q"
    using Cons.prems by simp
  from Cons.IH [OF this] show ?case
    by (simp add: bind_def os_path_getmtime_ok [OF n] ret_def)
qed

lemma read_first_lines_ok:
  "\<forall>p \<in> set ps. readable_file w p \<and> startswith p DATA_DIR \<Longrightarrow>
   read_first_lines ps w =
     (Inr (map (first_line_of w) ps),
      w\<lparr>trace := rev (concat (map (\<lambda>p. [Guard p, OpenR p]) ps)) @ trace w\<rparr>)"
proof (induction ps arbitrary: w)
  case Nil
  then show ?case by (simp add: ret_def)
next
  case (Cons p ps)
  from Cons.prems obtain c t where n: "nodes w p = Some (RegFile c t)" and r: "rdeny w p = None"
    and s: "startswith p DATA_DIR"
    by (auto simp: readable_file_def)
  let ?w = "w\<lparr>trace := OpenR p # Guard p # trace w\<rparr>"
  have "\<forall>q \<in> set ps. readable_file ?w q \<and> startswith q DATA_DIR"
    using Cons.prems by simp
  from Cons.IH [OF this] n r s show ?case
    by (simp add: bind_def enforce_security_ok open_read_ok ret_def first_line_of_def)
qed

lemma py_sorted_rat:
  "py_sorted rat_lt True kxs = Inr (map snd (rev (sort_key fst (rev kxs))))"
proof -
  have "sort_stable rat_lt (rev kxs) = Inr (sort_key (\<lambda>kx. id (fst kx)) (rev kxs))"
    by (rule sort_stable_sort_key) (simp add: rat_lt_def)
  then show ?thesis by (simp add: py_sorted_def)
qed

lemma sorted_pairs_recent_first:
  "map snd (rev (sort_key fst (rev (map (\<lambda>p. (mtime_of w p, p)) ps)))) = recent_first w ps"
proof -
  have "sort_key fst (map (\<lambda>p. (mtime_of w p, p)) (rev ps)) =
        map (\<lambda>p. (mtime_of w p, p)) (sort_key (\<lambda>p. fst (mtime_of w p, p)) (rev ps))"
    by (rule sort_key_map)
  then show ?thesis
    by (simp add: rev_map recent_first_def comp_def)
qed

lemma set_recent_first: "set (recent_first w ps) = set ps"
  by (simp add: recent_first_def)

lemma join_log_name:
  "file_name f \<Longrightarrow> os_path_join ''data/logs'' f = ''data/logs/'' @ f"
  by (cases f) (auto simp: file_name_def os_path_join_def startswith_def endswith_def)

lemma log_paths_data:
  "\<forall>f \<in> set names. endswith f ''.log'' \<longrightarrow> file_name f \<Longrightarrow>
   \<forall>p \<in> set (log_paths names). startswith p DATA_DIR"
  by (auto simp: log_paths_def join_log_name startswith_data)

lemma recent_logs_run:
  assumes "nodes w ''data/logs'' = Some (Dir names t)"
    and "rdeny w ''data/logs'' = None"
    and "\<forall>f \<in> set names. endswith f ''.log'' \<longrightarrow> file_name f"
    and "\<forall>p \<in> set (log_paths names). readable_file w p"
    and "wdeny w ''data/logs-recent.txt'' = None"
    and "\<forall>es t. nodes w ''data/logs-recent.txt'' \<noteq> Some (Dir es t)"
  shows "recent_logs w =
     (Inr (), w\<lparr>trace := [OpenW ''data/logs-recent.txt''] @
                   rev (concat (map (\<lambda>p. [Guard p, OpenR p]) (take 10 (recent_first w (log_paths names))))) @
                   rev (map Getmtime (log_paths names)) @
                   [Listdir ''data/logs'', Guard ''data/logs-recent.txt''] @ trace w,
                nodes := (nodes w)(''data/logs-recent.txt'' \<mapsto>
                   RegFile (str_join nl (map (first_line_of w) (take 10 (recent_first w (log_paths names)))) @ nl)
                     (clock w))\<rparr>)"
proof -
  let ?ps = "log_paths names"
  let ?sel = "take 10 (recent_first w ?ps)"
  let ?w1 = "w\<lparr>trace := Listdir ''data/logs'' # Guard ''data/logs-recent.txt'' # trace w\<rparr>"
  let ?w2 = "?w1\<lparr>trace := rev (map Getmtime ?ps) @ trace ?w1\<rparr>"
  let ?w3 = "?w2\<lparr>trace := rev (concat (map (\<lambda>p. [Guard p, OpenR p]) ?sel)) @ trace ?w2\<rparr>"
  have g: "getmtimes ?ps ?w1 = (Inr (map (\<lambda>p. (mtime_of w p, p)) ?ps), ?w2)"
    using getmtimes_ok [of ?ps ?w1] assms(4) by simp
  have sel: "\<forall>p \<in> set ?sel. readable_file ?w2 p \<and> startswith p DATA_DIR"
  proof
    fix p assume "p \<in> set ?sel"
    then have "p \<in> set ?ps" using set_take_subset set_recent_first by fast
    then show "readable_file ?w2 p \<and> startswith p DATA_DIR"
      using assms(4) log_paths_data [OF assms(3)] by simp
  qed
  have r: "read_first_lines ?sel ?w2 = (Inr (map (first_line_of w) ?sel), ?w3)"
    using read_first_lines_ok [OF sel] by simp
  have o: "open_write ''data/logs-recent.txt'' body ?w3 =
      (Inr (), ?w3\<lparr>trace := OpenW ''data/logs-recent.txt'' # trace ?w3,
                    nodes := (nodes ?w3)(''data/logs-recent.txt'' \<mapsto> RegFile body (clock ?w3))\<rparr>)" for body
    by (rule open_write_ok) (use assms(5,6) in simp_all)
  have l: "os_listdir ''data/logs'' (w\<lparr>trace := Guard ''data/logs-recent.txt'' # trace w\<rparr>) = (Inr names, ?w1)"
    using os_listdir_ok [of "w\<lparr>trace := Guard ''data/logs-recent.txt'' # trace w\<rparr>" "''data/logs''" names t]
      assms(1,2) by simp
  show ?thesis
    unfolding recent_logs_def join_logs Let_def
    by (simp add: bind_def enforce_security_ok startswith_data l [simplified]
        log_paths_def [symmetric] g [simplified] py_sorted_rat lift_run sorted_pairs_recent_first
        r [simplified] o [simplified])
qed











lemma recent_first_stable:
  "filter (\<lambda>p. mtime_of w p = k) (recent_first w ps) = filter (\<lambda>p. mtime_of w p = k) ps"
proof -
  have "filter (\<lambda>p. mtime_of w p = k) (recent_first w ps) =
        rev (filter (\<lambda>p. mtime_of w p = k) (sort_key (mtime_of w) (rev ps)))"
    by (simp add: recent_first_def rev_filter)
  also have "\<dots> = rev (filter (\<lambda>p. mtime_of w p = k) (rev ps))"
    by (simp add: sort_key_stable)
  finally show ?thesis by (simp add: rev_filter)
qed



lemma log_paths_demo: "log_paths logs_listing = [''data/logs/a.log'', ''data/logs/b.log'', ''data/logs/c.log'', ''data/logs/d.log'', ''data/logs/e.log'', ''data/logs/f.log'', ''data/logs/g.log'', ''data/logs/h.log'', ''data/logs/i.log'', ''data/logs/j.log'', ''data/logs/k.log'', ''data/logs/l.log'']"
  by (simp add: log_paths_def logs_listing_def os_path_join_def startswith_def endswith_def)

lemma recent_first_demo:
  "recent_first w_logs [''data/logs/a.log'', ''data/logs/b.log'', ''data/logs/c.log'', ''data/logs/d.log'', ''data/logs/e.log'', ''data/logs/f.log'', ''data/logs/g.log'', ''data/logs/h.log'', ''data/logs/i.log'', ''data/logs/j.log'', ''data/logs/k.log'', ''data/logs/l.log''] = [''data/logs/c.log'', ''data/logs/j.log'', ''data/logs/i.log'', ''data/logs/h.log'', ''data/logs/f.log'', ''data/logs/l.log'', ''data/logs/d.log'', ''data/logs/e.log'', ''data/logs/k.log'', ''data/logs/a.log'', ''data/logs/g.log'', ''data/logs/b.log'']"
  by (simp add: recent_first_def mtime_of_def w_logs_def)



section \<open>Every open comes after the guard\<close>

lemma checked_Cons: "checked es p \<Longrightarrow> checked (e # es) p"
  by (simp add: checked_def)

lemma valid_ret: "valid G (ret x) G"
  by (simp add: valid_def ret_def)

lemma valid_raise: "valid G (raise e) G'"
  by (simp add: valid_def raise_def)

lemma valid_lift: "valid G (lift r) G"
  by (simp add: valid_def lift_def)

lemma valid_bind:
  assumes "valid G m G1" and "\<And>x. valid G1 (f x) G2"
  shows "valid G (bind m f) G2"
  unfolding valid_def
proof (intro allI impI)
  fix w :: world
  assume a: "opens_guarded (trace w) \<and> (\<forall>p \<in> G. checked (trace w) p)"
  obtain r w' where m: "m w = (r, w')" by (cases "m w")
  from assms(1) a m have 1: "opens_guarded (trace w')"
    and 2: "\<forall>x. r = Inr x \<longrightarrow> (\<forall>p \<in> G1. checked (trace w') p)"
    by (auto simp: valid_def)
  show "opens_guarded (trace (snd (bind m f w))) \<and>
        (\<forall>x. fst (bind m f w) = Inr x \<longrightarrow> (\<forall>p \<in> G2. checked (trace (snd (bind m f w))) p))"
  proof (cases r)
    case (Inl e)
    with m 1 show ?thesis by (simp add: bind_def)
  next
    case (Inr x)
    with 2 have "\<forall>p \<in> G1. checked (trace w') p" by simp
    with assms(2) [of x] 1 have "opens_guarded (trace (snd (f x w'))) \<and>
        (\<forall>y. fst (f x w') = Inr y \<longrightarrow> (\<forall>p \<in> G2. checked (trace (snd (f x w'))) p))"
      by (simp add: valid_def)
    with m Inr show ?thesis by (simp add: bind_def)
  qed
qed

lemma valid_weaken: "valid G m G1 \<Longrightarrow> G2 \<subseteq> G1 \<Longrightarrow> valid G m G2"
  by (auto simp: valid_def)

lemma valid_if: "valid G a G' \<Longrightarrow> valid G b G' \<Longrightarrow> valid G (if c then a else b) G'"
  by simp

lemma valid_enforce_security: "valid G (enforce_security p) (insert p G)"
  by (auto simp: valid_def enforce_security_def bind_def emit_def raise_def ret_def checked_def)

lemma valid_os_path_exists: "p \<in> G \<Longrightarrow> valid G (os_path_exists p) G"
  by (auto simp: valid_def os_path_exists_def bind_def emit_def checked_Cons)

lemma valid_read_bytes: "p \<in> G \<Longrightarrow> valid G (read_bytes p) G"
  by (auto simp: valid_def read_bytes_def bind_def emit_def checked_Cons
      split: option.splits node.splits)

lemma valid_open_read: "p \<in> G \<Longrightarrow> valid G (open_read p) G"
  unfolding open_read_def by (rule valid_bind [OF valid_read_bytes valid_ret])

lemma valid_open_write: "p \<in> G \<Longrightarrow> valid G (open_write p body) G"
  by (auto simp: valid_def open_write_def bind_def emit_def checked_Cons
      split: option.splits node.splits)

lemma valid_sqlite_connect: "p \<in> G \<Longrightarrow> valid G (sqlite_connect p) G"
  by (auto simp: valid_def sqlite_connect_def bind_def emit_def checked_Cons
      split: option.splits node.splits)

lemma valid_os_listdir: "valid G (os_listdir p) G"
  by (auto simp: valid_def os_listdir_def bind_def emit_def checked_Cons
      split: option.splits node.splits)

lemma valid_os_path_getmtime: "valid G (os_path_getmtime p) G"
  by (auto simp: valid_def os_path_getmtime_def bind_def emit_def checked_Cons
      split: option.splits)

lemma valid_getmtimes: "valid G (getmtimes ps) G"
  by (induction ps) (auto intro: valid_ret valid_bind valid_os_path_getmtime)

lemma valid_read_first_lines: "valid G (read_first_lines ps) G"
proof (induction ps)
  case Nil
  show ?case by (simp add: valid_ret)
next
  case (Cons p ps)
  have "valid (insert p G) (read_first_lines ps) G"
    using Cons by (auto simp: valid_def)
  then have "valid (insert p G)
      (bind (open_read p) (\<lambda>t. bind (read_first_lines ps) (\<lambda>ls. ret (strip (readline t) # ls)))) G"
    by (intro valid_bind [OF valid_open_read] valid_bind [where ?G1.0 = G] valid_ret) simp_all
  then show ?case
    by (simp del: bind_def) (rule valid_bind [OF valid_enforce_security])
qed

lemma valid_case_option:
  "valid G a G' \<Longrightarrow> (\<And>x. valid G (b x) G') \<Longrightarrow>
   valid G (case opt of None \<Rightarrow> a | Some x \<Rightarrow> b x) G'"
  by (cases opt) simp_all

lemma valid_index_files: "valid G (index_files docs_dir fs index) G"
proof (induction fs arbitrary: G index)
  case Nil
  show ?case by (simp add: valid_ret)
next
  case (Cons f fs)
  show ?case
  proof (cases "endswith f ''.md''")
    case False
    then show ?thesis using Cons by simp
  next
    case True
    let ?p = "os_path_join docs_dir f"
    have "valid (insert ?p G) (index_files docs_dir fs idx) G" for idx
      by (rule valid_weaken [OF Cons]) auto
    then have "valid G (bind (enforce_security ?p) (\<lambda>_. bind (open_read ?p) (\<lambda>t.
        index_files docs_dir fs
          (case first_title (readlines t) of None \<Rightarrow> index
           | Some title \<Rightarrow> dict_set index f (JStr title))))) G"
      by (intro valid_bind [OF valid_enforce_security] valid_bind [OF valid_open_read]) simp_all
    with True show ?thesis by (simp add: Let_def)
  qed
qed

lemmas valid_steps =
  valid_bind [OF valid_enforce_security] valid_bind [OF valid_os_path_exists]
  valid_bind [OF valid_open_read] valid_bind [OF valid_read_bytes]
  valid_bind [OF valid_sqlite_connect] valid_bind [OF valid_os_listdir]
  valid_bind [OF valid_getmtimes] valid_bind [OF valid_read_first_lines]
  valid_bind [OF valid_index_files] valid_bind [OF valid_lift] valid_bind [OF valid_ret]
  valid_if valid_case_option valid_open_write valid_ret valid_raise valid_lift

lemma valid_count_wednesdays:
  "valid G (count_wednesdays sp)
     (insert (os_path_join DATA_DIR ''dates-wednesdays.txt'') (insert (os_path_join DATA_DIR ''dates.txt'') G))"
  unfolding count_wednesdays_def Let_def
  by (intro valid_steps valid_bind [OF valid_open_read]) simp_all

lemma valid_sort_contacts:
  "valid G (sort_contacts bi js)
     (insert (os_path_join DATA_DIR ''contacts-sorted.json'') (insert (os_path_join DATA_DIR ''contacts.json'') G))"
  unfolding sort_contacts_def Let_def
  by (intro valid_steps) simp_all

lemma valid_recent_logs:
  "valid G recent_logs (insert (os_path_join DATA_DIR ''logs-recent.txt'') G)"
  unfolding recent_logs_def Let_def
  by (intro valid_steps) simp_all

lemma valid_index_markdown:
  "valid G (index_markdown js) (insert (os_path_join DATA_DIR ''docs/index.json'') G)"
  unfolding index_markdown_def Let_def
  by (intro valid_steps) simp_all

lemma valid_extract_email:
  "p \<in> G \<Longrightarrow>
   valid G (if ex
            then bind (open_read p) (\<lambda>t.
                 case rs pat (strip t) of None \<Rightarrow> ret [] | Some m \<Rightarrow> lift (group m 1))
            else ret []) G"
  by (intro valid_steps) simp_all

lemma valid_email_sender:
  "valid G (email_sender rs)
     (insert (os_path_join DATA_DIR ''email-sender.txt'') (insert (os_path_join DATA_DIR ''email.txt'') G))"
  unfolding email_sender_def Let_def
  by (intro valid_steps valid_bind [OF valid_extract_email]) simp_all

lemma valid_extract_digits:
  "valid G (case rs pat t of None \<Rightarrow> ret []
            | Some m \<Rightarrow> bind (lift (group m 0)) (\<lambda>g. ret (filter isdigit g))) G"
  by (intro valid_steps)

lemma valid_extract_credit_card:
  "valid G (extract_credit_card rs ocr)
     (insert (os_path_join DATA_DIR ''credit-card.txt'') (insert (os_path_join DATA_DIR ''credit-card.png'') G))"
  unfolding extract_credit_card_def Let_def
  by (intro valid_steps valid_bind [OF valid_extract_digits]) simp_all

lemma valid_similar_comments:
  "valid G (similar_comments ms)
     (insert (os_path_join DATA_DIR ''comments-similar.txt'') (insert (os_path_join DATA_DIR ''comments.txt'') G))"
  unfolding similar_comments_def Let_def
  by (intro valid_steps) simp_all

lemma valid_total_gold_sales:
  "valid G (total_gold_sales sq)
     (insert (os_path_join DATA_DIR ''ticket-sales-gold.txt'') (insert (os_path_join DATA_DIR ''ticket-sales.db'') G))"
  unfolding total_gold_sales_def Let_def
  by (intro valid_steps) simp_all

lemma valid_guarded:
  "valid {} m G' \<Longrightarrow> opens_guarded (trace w) \<Longrightarrow> opens_guarded (trace (snd (m w)))"
  by (simp add: valid_def)

lemma task_map_guarded:
  assumes "(task, f) \<in> set (task_map l)" and "opens_guarded (trace w)"
  shows "opens_guarded (trace (snd (f w)))"
proof -
  from assms(1) consider
      "f = count_wednesdays (strptime l)" | "f = sort_contacts (builtin l) (json l)"
    | "f = recent_logs" | "f = index_markdown (json l)" | "f = email_sender (re_search l)"
    | "f = extract_credit_card (re_search l) (image_to_string l)"
    | "f = similar_comments (most_similar l)" | "f = total_gold_sales (sqlite l)"
    by (auto simp: task_map_def)
  then have "\<exists>G'. valid {} f G'"
  proof cases
    case 1 then show ?thesis using valid_count_wednesdays by blast
  next
    case 2 then show ?thesis using valid_sort_contacts by blast
  next
    case 3 then show ?thesis using valid_recent_logs by blast
  next
    case 4 then show ?thesis using valid_index_markdown by blast
  next
    case 5 then show ?thesis using valid_email_sender by blast
  next
    case 6 then show ?thesis using valid_extract_credit_card by blast
  next
    case 7 then show ?thesis using valid_similar_comments by blast
  next
    case 8 then show ?thesis using valid_total_gold_sales by blast
  qed
  then show ?thesis using assms(2) valid_guarded by blast
qed

lemma run_task_guarded:
  assumes "opens_guarded (trace w)"
  shows "opens_guarded (trace (snd (run_task l task w)))"
proof (cases "map_of (task_map l) task")
  case None
  with assms show ?thesis by (simp add: run_task_def)
next
  case (Some f)
  then have "(task, f) \<in> set (task_map l)" by (rule map_of_SomeD)
  from task_map_guarded [OF this assms] have g: "opens_guarded (trace (snd (f w)))" .
  obtain r w' where fw: "f w = (r, w')" by (cases "f w")
  with g Some show ?thesis by (cases r) (simp_all add: run_task_def)
qed

lemma get_task_output_guarded:
  assumes "opens_guarded (trace w)"
  shows "opens_guarded (trace (snd (get_task_output task w)))"
  using assms
  by (auto simp: get_task_output_def call_read_output_file_def module_globals_def raise_def
      split: option.splits)

lemma enforce_security_raises:
  "\<not> startswith p DATA_DIR \<Longrightarrow>
   enforce_security p w = (Inl (PermissionError (access_denied p)), w\<lparr>trace := Guard p # trace w\<rparr>)"
  by (simp add: enforce_security_def bind_def emit_def raise_def)

text \<open>
  Claim C2, as the code has it. Whatever the task name, the libraries and the files: in
  the accesses of \<open>run\<close> and of \<open>get\<close>, every open of a file for reading or writing, every
  connect to the database and every existence test comes after a call of the guard on the
  same path that let it pass, also for each file found through a directory listing. A
  path that does not start with the Data Root makes the guard raise the security
  violation, so nothing after the guard call is run for it.
\<close>

theorem opens_come_after_guard:
  "(opens_guarded (trace w) \<longrightarrow>
      opens_guarded (trace (snd (run_task l task w))) \<and>
      opens_guarded (trace (snd (get_task_output task w)))) \<and>
   (\<not> startswith p DATA_DIR \<longrightarrow>
      enforce_security p w =
        (Inl (PermissionError (access_denied p)), w\<lparr>trace := Guard p # trace w\<rparr>))"
  using run_task_guarded get_task_output_guarded enforce_security_raises by blast

theorem opens_come_after_guard_witness:
  "opens_guarded (trace w_logs) \<and>
   opens_guarded (trace (snd (run_task lib_demo ''recent_logs'' w_logs))) \<and>
   \<not> startswith ''/etc/passwd'' DATA_DIR \<and>
   enforce_security ''/etc/passwd'' w_logs =
     (Inl (PermissionError ''Access denied: /etc/passwd is outside data/''),
      w_logs\<lparr>trace := [Guard ''/etc/passwd'']\<rparr>)"
proof -
  have 1: "opens_guarded (trace w_logs)" by (simp add: w_logs_def)
  have 2: "\<not> startswith ''/etc/passwd'' DATA_DIR" by (simp add: startswith_def DATA_DIR_def)
  have 3: "trace w_logs = []" by (simp add: w_logs_def)
  from opens_come_after_guard [of w_logs lib_demo "''recent_logs''" "''/etc/passwd''"] 1 2
  show ?thesis by (simp add: access_denied_def DATA_DIR_def 3)
qed

text \<open>
  The claim as stated fails: \<open>recent_logs\<close> lists \<open>data/logs\<close> and reads the modification
  time of each \<open>.log\<close> entry before any guard call on those paths, and the entries that
  are not among the ten most recent are never checked.
\<close>

lemma all_guarded_Listdir: "all_guarded tr \<Longrightarrow> Listdir p \<in> set tr \<Longrightarrow> Guard p \<in> set tr"
  by (induction tr) (auto simp: checked_def split: event.splits)

lemma recent_logs_demo_trace:
  "trace (snd (recent_logs w_logs)) =
     [OpenW ''data/logs-recent.txt''] @
     rev (concat (map (\<lambda>p. [Guard p, OpenR p]) (take 10 (recent_first w_logs (log_paths logs_listing))))) @
     rev (map Getmtime (log_paths logs_listing)) @
     [Listdir ''data/logs'', Guard ''data/logs-recent.txt'']"
proof -
  have 1: "nodes w_logs ''data/logs'' = Some (Dir logs_listing 20)" by (simp add: w_logs_def)
  have 2: "rdeny w_logs ''data/logs'' = None" by (simp add: w_logs_def)
  have 3: "\<forall>f \<in> set logs_listing. endswith f ''.log'' \<longrightarrow> file_name f"
    by (simp add: logs_listing_def file_name_def)
  have 4: "\<forall>p \<in> set (log_paths logs_listing). readable_file w_logs p"
    unfolding log_paths_demo by (simp add: readable_file_def w_logs_def)
  have 5: "wdeny w_logs ''data/logs-recent.txt'' = None" by (simp add: w_logs_def)
  have 6: "\<forall>es t. nodes w_logs ''data/logs-recent.txt'' \<noteq> Some (Dir es t)"
    by (simp add: w_logs_def)
  have "trace w_logs = []" by (simp add: w_logs_def)
  then show ?thesis by (simp add: recent_logs_run [OF 1 2 3 4 5 6])
qed

theorem unguarded_listing_counterexample:
  "\<not> all_guarded (trace (snd (recent_logs w_logs))) \<and>
   Listdir ''data/logs'' \<in> set (trace (snd (recent_logs w_logs))) \<and>
   Guard ''data/logs'' \<notin> set (trace (snd (recent_logs w_logs))) \<and>
   Getmtime ''data/logs/b.log'' \<in> set (trace (snd (recent_logs w_logs))) \<and>
   Guard ''data/logs/b.log'' \<notin> set (trace (snd (recent_logs w_logs)))"
proof -
  have l: "Listdir ''data/logs'' \<in> set (trace (snd (recent_logs w_logs)))"
    unfolding recent_logs_demo_trace by simp
  have g: "Guard ''data/logs'' \<notin> set (trace (snd (recent_logs w_logs)))"
    unfolding recent_logs_demo_trace log_paths_demo recent_first_demo by simp
  have m: "Getmtime ''data/logs/b.log'' \<in> set (trace (snd (recent_logs w_logs)))"
    unfolding recent_logs_demo_trace log_paths_demo by simp
  have b: "Guard ''data/logs/b.log'' \<notin> set (trace (snd (recent_logs w_logs)))"
    unfolding recent_logs_demo_trace log_paths_demo recent_first_demo by simp
  from l g have "\<not> all_guarded (trace (snd (recent_logs w_logs)))"
    using all_guarded_Listdir by blast
  with l g m b show ?thesis by blast
qed

section \<open>The guard never raises inside a task\<close>

lemma listing_ok_trace [simp]: "listing_ok (w\<lparr>trace := tr\<rparr>) = listing_ok w"
  by (simp add: listing_ok_def entries_ok_def)

lemma guards_ok_Cons:
  "guards_ok (e # tr) = ((case e of Guard p \<Rightarrow> startswith p DATA_DIR | _ \<Rightarrow> True) \<and> guards_ok tr)"
  by (simp add: guards_ok_def)

lemma gv_bind:
  assumes "gv m Q" and "\<And>x. Q x \<Longrightarrow> gv (f x) R"
  shows "gv (bind m f) R"
  unfolding gv_def
proof (intro allI impI)
  fix w :: world
  assume a: "listing_ok w \<and> guards_ok (trace w)"
  obtain r w' where m: "m w = (r, w')" by (cases "m w")
  from assms(1) a m have 1: "listing_ok w' \<and> guards_ok (trace w')"
    and 2: "\<forall>x. r = Inr x \<longrightarrow> Q x"
    by (auto simp: gv_def)
  show "listing_ok (snd (bind m f w)) \<and> guards_ok (trace (snd (bind m f w))) \<and>
        (\<forall>x. fst (bind m f w) = Inr x \<longrightarrow> R x)"
  proof (cases r)
    case (Inl e)
    with m 1 show ?thesis by (simp add: bind_def)
  next
    case (Inr x)
    with 2 have "Q x" by simp
    from assms(2) [OF this] 1 have "listing_ok (snd (f x w')) \<and> guards_ok (trace (snd (f x w'))) \<and>
        (\<forall>y. fst (f x w') = Inr y \<longrightarrow> R y)"
      by (simp add: gv_def)
    with m Inr show ?thesis by (simp add: bind_def)
  qed
qed

lemma gv_weaken: "gv m Q \<Longrightarrow> (\<And>x. Q x \<Longrightarrow> R x) \<Longrightarrow> gv m R"
  by (simp add: gv_def)

lemma gv_ret: "Q x \<Longrightarrow> gv (ret x) Q"
  by (simp add: gv_def ret_def)

lemma gv_raise: "gv (raise e) Q"
  by (simp add: gv_def raise_def)

lemma gv_lift: "gv (lift r) (\<lambda>x. r = Inr x)"
  by (simp add: gv_def lift_def)

lemma gv_if: "gv a Q \<Longrightarrow> gv b Q \<Longrightarrow> gv (if c then a else b) Q"
  by simp

lemma gv_case_option:
  "gv a Q \<Longrightarrow> (\<And>x. gv (b x) Q) \<Longrightarrow> gv (case opt of None \<Rightarrow> a | Some x \<Rightarrow> b x) Q"
  by (cases opt) simp_all

lemma gv_enforce_security: "startswith p DATA_DIR \<Longrightarrow> gv (enforce_security p) (\<lambda>_. True)"
  by (simp add: gv_def enforce_security_def bind_def emit_def ret_def guards_ok_Cons)

lemma gv_os_path_exists: "gv (os_path_exists p) (\<lambda>_. True)"
  by (simp add: gv_def os_path_exists_def bind_def emit_def guards_ok_Cons)

lemma gv_read_bytes: "gv (read_bytes p) (\<lambda>_. True)"
  by (auto simp: gv_def read_bytes_def bind_def emit_def guards_ok_Cons
      split: option.splits node.splits)

lemma gv_open_read: "gv (open_read p) (\<lambda>_. True)"
  unfolding open_read_def by (rule gv_bind [OF gv_read_bytes gv_ret]) simp

lemma entries_ok_write:
  "entries_ok w d \<Longrightarrow> entries_ok (w\<lparr>trace := tr, nodes := (nodes w)(p \<mapsto> RegFile c t)\<rparr>) d"
  by (simp add: entries_ok_def)

lemma listing_ok_write:
  "listing_ok w \<Longrightarrow> listing_ok (w\<lparr>trace := tr, nodes := (nodes w)(p \<mapsto> RegFile c t)\<rparr>)"
  by (simp add: listing_ok_def entries_ok_write)

lemma gv_open_write: "gv (open_write p body) (\<lambda>_. True)"
  by (simp add: gv_def open_write_def bind_def emit_def guards_ok_Cons listing_ok_write
      split: option.splits node.splits)

lemma gv_sqlite_connect: "gv (sqlite_connect p) (\<lambda>_. True)"
  by (simp add: gv_def sqlite_connect_def bind_def emit_def guards_ok_Cons listing_ok_write
      split: option.splits node.splits)

lemma gv_os_path_getmtime: "gv (os_path_getmtime p) (\<lambda>_. True)"
  by (auto simp: gv_def os_path_getmtime_def bind_def emit_def guards_ok_Cons
      split: option.splits)

lemma gv_os_listdir:
  "d = ''data/logs'' \<or> d = ''data/docs'' \<Longrightarrow> gv (os_listdir d) (list_all file_name)"
  by (auto simp: gv_def os_listdir_def bind_def emit_def guards_ok_Cons listing_ok_def entries_ok_def
      split: option.splits node.splits)

lemma gv_getmtimes: "gv (getmtimes ps) (\<lambda>keyed. map snd keyed = ps)"
proof (induction ps)
  case Nil
  show ?case by (simp add: gv_ret)
next
  case (Cons p ps)
  show ?case
    unfolding getmtimes.simps
    by (intro gv_bind [OF gv_os_path_getmtime] gv_bind [OF Cons] gv_ret) simp
qed

lemma gv_read_first_lines:
  "\<forall>p \<in> set ps. startswith p DATA_DIR \<Longrightarrow> gv (read_first_lines ps) (\<lambda>_. True)"
proof (induction ps)
  case Nil
  show ?case by (simp add: gv_ret)
next
  case (Cons p ps)
  then have ih: "gv (read_first_lines ps) (\<lambda>_. True)" and p: "startswith p DATA_DIR" by simp_all
  show ?case
    unfolding read_first_lines.simps
    by (intro gv_bind [OF gv_enforce_security [OF p]] gv_bind [OF gv_open_read] gv_bind [OF ih] gv_ret)
      simp
qed

lemma join_doc_name:
  "file_name f \<Longrightarrow> os_path_join ''data/docs'' f = ''data/docs/'' @ f"
  by (cases f) (auto simp: file_name_def os_path_join_def startswith_def endswith_def)

lemma gv_index_files:
  "list_all file_name fs \<Longrightarrow> gv (index_files ''data/docs'' fs index) (\<lambda>_. True)"
proof (induction fs arbitrary: index)
  case Nil
  show ?case by (simp add: gv_ret)
next
  case (Cons f fs)
  then have ih: "gv (index_files ''data/docs'' fs idx) (\<lambda>_. True)" for idx by simp
  from Cons.prems have "file_name f" by simp
  then have p: "startswith (os_path_join ''data/docs'' f) DATA_DIR"
    by (simp add: join_doc_name startswith_data)
  show ?case
  proof (cases "endswith f ''.md''")
    case False
    then show ?thesis using ih by simp
  next
    case True
    have "gv (bind (enforce_security (os_path_join ''data/docs'' f)) (\<lambda>_.
            bind (open_read (os_path_join ''data/docs'' f)) (\<lambda>t.
            index_files ''data/docs'' fs
              (case first_title (readlines t) of None \<Rightarrow> index
               | Some title \<Rightarrow> dict_set index f (JStr title))))) (\<lambda>_. True)"
      by (intro gv_bind [OF gv_enforce_security [OF p]] gv_bind [OF gv_open_read] ih)
    with True show ?thesis by (simp add: Let_def)
  qed
qed

lemma startswith_join:
  "\<not> startswith b ''/'' \<Longrightarrow> startswith (os_path_join DATA_DIR b) DATA_DIR"
  by (simp add: os_path_join_def DATA_DIR_def startswith_def endswith_def)

lemmas gv_steps =
  gv_bind [OF gv_enforce_security] gv_bind [OF gv_os_path_exists]
  gv_bind [OF gv_open_read] gv_bind [OF gv_read_bytes]
  gv_bind [OF gv_sqlite_connect] gv_bind [OF gv_lift]
  gv_if gv_case_option gv_open_write gv_raise gv_ret

lemma gv_count_wednesdays: "gv (count_wednesdays sp) (\<lambda>_. True)"
  unfolding count_wednesdays_def Let_def
  by (intro gv_steps startswith_join) (simp_all add: startswith_def)

lemma gv_sort_contacts: "gv (sort_contacts bi js) (\<lambda>_. True)"
  unfolding sort_contacts_def Let_def
  by (intro gv_steps startswith_join) (simp_all add: startswith_def)

lemma gv_extract_email:
  "gv (if ex
       then bind (open_read p) (\<lambda>t.
            case rs pat (strip t) of None \<Rightarrow> ret [] | Some m \<Rightarrow> lift (group m 1))
       else ret []) (\<lambda>_. True)"
  by (intro gv_steps gv_weaken [OF gv_lift]) simp_all

lemma gv_email_sender: "gv (email_sender rs) (\<lambda>_. True)"
  unfolding email_sender_def Let_def
  by (intro gv_steps gv_bind [OF gv_extract_email] startswith_join) (simp_all add: startswith_def)

lemma gv_extract_digits:
  "gv (case rs pat t of None \<Rightarrow> ret []
       | Some m \<Rightarrow> bind (lift (group m 0)) (\<lambda>g. ret (filter isdigit g))) (\<lambda>_. True)"
  by (intro gv_steps) simp_all

lemma gv_extract_credit_card: "gv (extract_credit_card rs ocr) (\<lambda>_. True)"
  unfolding extract_credit_card_def Let_def
  by (intro gv_steps gv_bind [OF gv_extract_digits] startswith_join) (simp_all add: startswith_def)

lemma gv_similar_comments: "gv (similar_comments ms) (\<lambda>_. True)"
  unfolding similar_comments_def Let_def
  by (intro gv_steps startswith_join) (simp_all add: startswith_def)

lemma gv_total_gold_sales: "gv (total_gold_sales sq) (\<lambda>_. True)"
  unfolding total_gold_sales_def Let_def
  by (intro gv_steps startswith_join) (simp_all add: startswith_def)

lemma join_dirs:
  "os_path_join DATA_DIR ''logs'' = ''data/logs''"
  "os_path_join DATA_DIR ''docs'' = ''data/docs''"
  by (simp_all add: os_path_join_def DATA_DIR_def startswith_def endswith_def)

lemma gv_index_markdown: "gv (index_markdown js) (\<lambda>_. True)"
proof -
  have o: "startswith (os_path_join DATA_DIR ''docs/index.json'') DATA_DIR"
    by (rule startswith_join) (simp add: startswith_def)
  have l: "gv (os_listdir ''data/docs'') (list_all file_name)"
    by (rule gv_os_listdir) simp
  have "gv (bind (enforce_security (os_path_join DATA_DIR ''docs/index.json'')) (\<lambda>_.
         bind (os_listdir ''data/docs'') (\<lambda>names.
         bind (index_files ''data/docs'' names []) (\<lambda>index.
         open_write (os_path_join DATA_DIR ''docs/index.json'') (json_dump js (JObj index))))))
        (\<lambda>_. True)"
  proof (rule gv_bind [OF gv_enforce_security [OF o]], rule gv_bind [OF l])
    fix names :: "string list"
    assume "list_all file_name names"
    from gv_index_files [OF this]
    show "gv (bind (index_files ''data/docs'' names []) (\<lambda>index.
         open_write (os_path_join DATA_DIR ''docs/index.json'') (json_dump js (JObj index))))
        (\<lambda>_. True)"
      by (rule gv_bind) (rule gv_open_write)
  qed
  then show ?thesis by (simp add: index_markdown_def Let_def join_dirs)
qed

lemma set_insort_lt: "insort_lt lt x ys = Inr zs \<Longrightarrow> set zs = insert x (set ys)"
proof (induction ys arbitrary: zs)
  case Nil
  then show ?case by auto
next
  case (Cons y ys)
  show ?case
  proof (cases "lt (fst y) (fst x)")
    case (Inl e)
    with Cons.prems show ?thesis by simp
  next
    case (Inr b)
    show ?thesis
    proof (cases b)
      case False
      with Inr Cons.prems show ?thesis by auto
    next
      case True
      show ?thesis
      proof (cases "insort_lt lt x ys")
        case (Inl e)
        with Inr True Cons.prems show ?thesis by simp
      next
        case r: (Inr zs')
        from Cons.IH [OF r] have "set zs' = insert x (set ys)" .
        moreover from Inr True r Cons.prems have "zs = y # zs'" by simp
        ultimately show ?thesis by auto
      qed
    qed
  qed
qed

lemma set_sort_stable: "sort_stable lt xs = Inr ys \<Longrightarrow> set ys = set xs"
proof (induction xs arbitrary: ys)
  case Nil
  then show ?case by simp
next
  case (Cons x xs)
  show ?case
  proof (cases "sort_stable lt xs")
    case (Inl e)
    with Cons.prems show ?thesis by simp
  next
    case (Inr ys')
    with Cons.prems have "insort_lt lt x ys' = Inr ys" by simp
    from set_insort_lt [OF this] Cons.IH [OF Inr] show ?thesis by simp
  qed
qed

lemma set_py_sorted: "py_sorted lt r kxs = Inr ys \<Longrightarrow> set ys = snd ` set kxs"
proof (cases r)
  case True
  assume a: "py_sorted lt r kxs = Inr ys"
  show ?thesis
  proof (cases "sort_stable lt (rev kxs)")
    case (Inl e)
    with a True show ?thesis by (simp add: py_sorted_def)
  next
    case (Inr zs)
    from set_sort_stable [OF Inr] have "set zs = set kxs" by simp
    moreover from a True Inr have "ys = map snd (rev zs)" by (simp add: py_sorted_def)
    ultimately show ?thesis by simp
  qed
next
  case False
  assume a: "py_sorted lt r kxs = Inr ys"
  show ?thesis
  proof (cases "sort_stable lt kxs")
    case (Inl e)
    with a False show ?thesis by (simp add: py_sorted_def)
  next
    case (Inr zs)
    from set_sort_stable [OF Inr] have "set zs = set kxs" .
    moreover from a False Inr have "ys = map snd zs" by (simp add: py_sorted_def)
    ultimately show ?thesis by simp
  qed
qed

lemma gv_recent_logs: "gv recent_logs (\<lambda>_. True)"
proof -
  have rest: "gv (bind (getmtimes (map (os_path_join ''data/logs'') (filter (\<lambda>f. endswith f ''.log'') names)))
        (\<lambda>keyed. bind (lift (py_sorted rat_lt True keyed)) (\<lambda>sorted_files.
           bind (read_first_lines (take 10 sorted_files)) (\<lambda>first_lines.
           open_write (os_path_join DATA_DIR ''logs-recent.txt'') (str_join nl first_lines @ nl)))))
        (\<lambda>_. True)"
    if n: "list_all file_name names" for names
  proof (rule gv_bind [OF gv_getmtimes], rule gv_bind [OF gv_lift])
    fix keyed :: "(rat \<times> string) list" and sorted_files
    assume k: "map snd keyed = map (os_path_join ''data/logs'') (filter (\<lambda>f. endswith f ''.log'') names)"
      and s: "py_sorted rat_lt True keyed = Inr sorted_files"
    have "set sorted_files = set (map snd keyed)" using set_py_sorted [OF s] by simp
    then have "set (take 10 sorted_files) \<subseteq> os_path_join ''data/logs'' ` set names"
      unfolding k using set_take_subset [of 10 sorted_files] by auto
    then have "\<forall>p \<in> set (take 10 sorted_files). startswith p DATA_DIR"
      using n by (auto simp: list_all_iff join_log_name startswith_data)
    then show "gv (bind (read_first_lines (take 10 sorted_files)) (\<lambda>first_lines.
           open_write (os_path_join DATA_DIR ''logs-recent.txt'') (str_join nl first_lines @ nl)))
        (\<lambda>_. True)"
      by (intro gv_bind [OF gv_read_first_lines] gv_open_write)
  qed
  have o: "startswith (os_path_join DATA_DIR ''logs-recent.txt'') DATA_DIR"
    by (rule startswith_join) (simp add: startswith_def)
  have l: "gv (os_listdir ''data/logs'') (list_all file_name)"
    by (rule gv_os_listdir) simp
  have "gv (bind (enforce_security (os_path_join DATA_DIR ''logs-recent.txt'')) (\<lambda>_.
         bind (os_listdir ''data/logs'') (\<lambda>names.
         bind (getmtimes (map (os_path_join ''data/logs'') (filter (\<lambda>f. endswith f ''.log'') names)))
        (\<lambda>keyed. bind (lift (py_sorted rat_lt True keyed)) (\<lambda>sorted_files.
           bind (read_first_lines (take 10 sorted_files)) (\<lambda>first_lines.
           open_write (os_path_join DATA_DIR ''logs-recent.txt'') (str_join nl first_lines @ nl)))))))
        (\<lambda>_. True)"
    by (rule gv_bind [OF gv_enforce_security [OF o]], rule gv_bind [OF l]) (rule rest)
  then show ?thesis by (simp add: recent_logs_def Let_def join_dirs)
qed

lemma guards_ok_iff: "guards_ok tr \<longleftrightarrow> (\<forall>p. Guard p \<in> set tr \<longrightarrow> startswith p DATA_DIR)"
  by (auto simp: guards_ok_def list_all_iff split: event.splits)

lemma task_map_gv:
  assumes "(task, f) \<in> set (task_map l)"
  shows "gv f (\<lambda>_. True)"
proof -
  from assms consider
      "f = count_wednesdays (strptime l)" | "f = sort_contacts (builtin l) (json l)"
    | "f = recent_logs" | "f = index_markdown (json l)" | "f = email_sender (re_search l)"
    | "f = extract_credit_card (re_search l) (image_to_string l)"
    | "f = similar_comments (most_similar l)" | "f = total_gold_sales (sqlite l)"
    by (auto simp: task_map_def)
  then show ?thesis
  proof cases
    case 1 then show ?thesis by (simp add: gv_count_wednesdays)
  next
    case 2 then show ?thesis by (simp add: gv_sort_contacts)
  next
    case 3 then show ?thesis by (simp add: gv_recent_logs)
  next
    case 4 then show ?thesis by (simp add: gv_index_markdown)
  next
    case 5 then show ?thesis by (simp add: gv_email_sender)
  next
    case 6 then show ?thesis by (simp add: gv_extract_credit_card)
  next
    case 7 then show ?thesis by (simp add: gv_similar_comments)
  next
    case 8 then show ?thesis by (simp add: gv_total_gold_sales)
  qed
qed

text \<open>
  Claim C10. For every task function of the table, run where the directory listings hold
  file names and the guard calls made so far all passed: every guard call the task makes
  is on a path that starts with the Data Root, so each of these calls returns and none
  raises the security violation; the listings stay as they were, so the same holds for
  the next task.
\<close>

theorem guard_never_raises:
  assumes "(task, f) \<in> set (task_map l)"
    and "listing_ok w"
    and "guards_ok (trace w)"
  shows "guards_ok (trace (snd (f w))) \<and>
         (\<forall>p. Guard p \<in> set (trace (snd (f w))) \<longrightarrow>
              startswith p DATA_DIR \<and> (\<forall>w'. fst (enforce_security p w') = Inr ())) \<and>
         listing_ok (snd (f w))"
proof -
  from task_map_gv [OF assms(1)] assms(2,3)
  have g: "guards_ok (trace (snd (f w)))" and l: "listing_ok (snd (f w))"
    by (simp_all add: gv_def)
  have "\<forall>p. Guard p \<in> set (trace (snd (f w))) \<longrightarrow>
              startswith p DATA_DIR \<and> (\<forall>w'. fst (enforce_security p w') = Inr ())"
    using g by (auto simp: guards_ok_iff enforce_security_ok)
  with g l show ?thesis by blast
qed

theorem guard_never_raises_witness:
  "(''recent_logs'', recent_logs) \<in> set (task_map lib_demo) \<and>
   listing_ok w_logs \<and>
   guards_ok (trace w_logs) \<and>
   guards_ok (trace (snd (recent_logs w_logs))) \<and>
   Guard ''data/logs/c.log'' \<in> set (trace (snd (recent_logs w_logs))) \<and>
   startswith ''data/logs/c.log'' DATA_DIR"
proof -
  have 1: "(''recent_logs'', recent_logs) \<in> set (task_map lib_demo)"
    by (simp add: task_map_def)
  have 2: "listing_ok w_logs"
    by (simp add: listing_ok_def entries_ok_def w_logs_def logs_listing_def file_name_def)
  have 3: "guards_ok (trace w_logs)" by (simp add: w_logs_def guards_ok_def)
  have 4: "Guard ''data/logs/c.log'' \<in> set (trace (snd (recent_logs w_logs)))"
    unfolding recent_logs_demo_trace log_paths_demo recent_first_demo by simp
  from guard_never_raises [OF 1 2 3] 1 2 3 4 show ?thesis by blast
qed

end
